theory Spec2Isabelle
  imports Main
begin

section \<open>Data model of scooper.ts\<close>

text \<open>
  The three exported functions of \<^verbatim>\<open>src/scooper.ts\<close> are asynchronous and talk to
  four collaborators: the ledger connection, the wallet, the swap aggregator and the
  callbacks of the caller. The embedding makes each of them explicit.
  \<^item> A remote call is a function (or a value) of the environment that returns
    \<open>Inl error\<close> where the promise rejects and \<open>Inr value\<close> where it fulfils. Every
    remote call is taken to settle; time-outs are the collaborators' business.
  \<^item> A callback is an observer: calling it appends an event to the trace and returns
    normally. The remote calls the claims talk about are events of the trace as well.
  \<^item> An \<^verbatim>\<open>await\<close> is a suspension point. The body of an asynchronous arrow function
    is a list of segments, each run without interruption; \<^verbatim>\<open>Promise.all\<close> over
    \<^verbatim>\<open>xs.map(async ...)\<close> runs the first segment of every body in order and resumes
    the others in an order the model takes as a parameter (the schedule).
  \<^item> \<^verbatim>\<open>console.log\<close> output is not recorded; \<^verbatim>\<open>console.error\<close> is.
  \<^item> A string is the UTF-8 text of the JavaScript string, one \<open>char\<close> for each byte.
    A value that may be \<^verbatim>\<open>undefined\<close> is an option, \<open>None\<close> being \<^verbatim>\<open>undefined\<close>.
\<close>

datatype js_error =
    Failure string  \<comment> \<open>a remote or library call failed; the text is its message\<close>
  | SyntaxError
  | TypeError

record TokenInfo =
  address :: string
  chainId :: nat
  decimals :: nat
  name :: string
  symbol :: string
  logoURI :: string
  tags :: "string list"
  strict :: "bool option"

text \<open>
  One element of the answer of \<^verbatim>\<open>getParsedProgramAccounts\<close>: the account itself and
  the two fields the code reads, \<^verbatim>\<open>account.data.parsed.info.mint\<close> and
  \<^verbatim>\<open>account.data.parsed.info.tokenAmount.amount\<close> (a string). The accounts of the
  two token programs always come parsed, so both fields are there.
\<close>

record RawAccount =
  pubkey :: string
  mint :: string
  tokenAmount :: string

text \<open>
  The token directory is a plain object, \<^verbatim>\<open>{ [id: string]: TokenInfo }\<close>: its own
  properties are the listed tokens, a map from mint addresses to entries, and it
  inherits the properties of \<^verbatim>\<open>Object.prototype\<close>, which is taken to be as the
  language defines it. So \<^verbatim>\<open>tokenList[k]\<close> is the entry listed under \<open>k\<close>; where
  none is listed and \<open>k\<close> names a property of \<^verbatim>\<open>Object.prototype\<close>, it is that
  property (eleven functions, and \<^verbatim>\<open>Object.prototype\<close> itself for \<^verbatim>\<open>__proto__\<close>);
  otherwise it is \<^verbatim>\<open>undefined\<close>.
\<close>

datatype token_value =
    Listed TokenInfo
  | Inherited string  \<comment> \<open>the property of \<^verbatim>\<open>Object.prototype\<close> of that name\<close>

definition Object_prototype :: "string list" where
  "Object_prototype =
     [''constructor'', ''__defineGetter__'', ''__defineSetter__'', ''hasOwnProperty'',
      ''__lookupGetter__'', ''__lookupSetter__'', ''isPrototypeOf'',
      ''propertyIsEnumerable'', ''toString'', ''valueOf'', ''__proto__'',
      ''toLocaleString'']"

definition Get :: "(string \<rightharpoonup> TokenInfo) \<Rightarrow> string \<Rightarrow> token_value option" where
  "Get tokenList k =
     (case tokenList k of
        Some info \<Rightarrow> Some (Listed info)
      | None \<Rightarrow> if k \<in> set Object_prototype then Some (Inherited k) else None)"

text \<open>
  \<^verbatim>\<open>token.address\<close>: the field of a listed entry; the inherited values have no such
  property.
\<close>

fun token_address :: "token_value \<Rightarrow> string option" where
  "token_address (Listed info) = Some (address info)"
| "token_address (Inherited k) = None"

text \<open>
  The interface declares \<^verbatim>\<open>account: string\<close> and \<^verbatim>\<open>balance: bigint\<close>; the objects
  \<^verbatim>\<open>getTokenAccounts\<close> pushes hold the fetched account object, the value of
  \<^verbatim>\<open>tokenList[mintAddress]\<close> and \<^verbatim>\<open>tokenBalance.toString()\<close>, and the record follows
  the objects.
\<close>

record TokenBalance =
  account :: RawAccount
  token :: token_value
  balance :: string

datatype GetProgramAccountsFilter = DataSize nat | Memcmp nat string

text \<open>
  A JavaScript number. \<open>Finite i\<close> is the binary64 value equal to the integer \<open>i\<close>;
  \<open>Number_of s\<close> is the number JavaScript makes of the string \<open>s\<close>, for the strings
  on which the model does not compute it (see \<open>Number\<close> below).
\<close>

datatype js_number = Finite int | Number_of string

record QuoteGetRequest =
  inputMint :: "string option"
  outputMint :: string
  amount :: js_number

record QuoteResponse =
  quoteInputMint :: "string option"
  inAmount :: string
  quoteOutputMint :: string
  outAmount :: string

record SwapPostRequest =
  userPublicKey :: string
  quoteResponse :: QuoteResponse

record SwapResponse =
  swapTransaction :: string
  lastValidBlockHeight :: nat

datatype instruction =
    CloseAccount string string string "string list"
  | Instruction string

record VersionedTransaction =
  payerKey :: string
  recentBlockhash :: string
  instructions :: "instruction list"
  signatures :: "string list"

record Asset =
  asset :: TokenBalance
  swap :: "SwapResponse option"
  checked :: "bool option"

text \<open>
  The collaborators. A remote service need not answer the same request twice in the same
  way, so the calls an asynchronous arrow function makes once per array element
  (\<^verbatim>\<open>quoteGet\<close>, \<^verbatim>\<open>swapPost\<close>, \<^verbatim>\<open>sendAndConfirmRawTransaction\<close>) take the index
  of the element as their first argument: \<open>quoteGet api i rq\<close> is the answer to the
  request \<open>rq\<close> made for element \<open>i\<close>.
\<close>

record Connection =
  getParsedProgramAccounts ::
    "string \<Rightarrow> GetProgramAccountsFilter list \<Rightarrow> js_error + RawAccount list"
  getLatestBlockhash :: "js_error + string"
  sendAndConfirmRawTransaction :: "nat \<Rightarrow> VersionedTransaction \<Rightarrow> js_error + string"

record WalletContextState =
  publicKey :: "string option"
  signAllTransactions ::
    "(VersionedTransaction list \<Rightarrow> js_error + VersionedTransaction list) option"

record DefaultApi =
  quoteGet :: "nat \<Rightarrow> QuoteGetRequest \<Rightarrow> js_error + QuoteResponse"
  swapPost :: "nat \<Rightarrow> SwapPostRequest \<Rightarrow> js_error + SwapResponse"

text \<open>
  The two library functions that turn a swap payload into a transaction, \<^verbatim>\<open>atob\<close>
  and \<^verbatim>\<open>VersionedTransaction.deserialize\<close>, are parameters: both throw on malformed
  input.
\<close>

record Runtime =
  atob :: "string \<Rightarrow> js_error + string"
  deserialize :: "nat list \<Rightarrow> js_error + VersionedTransaction"

section \<open>Strings that are integers: BigInt, toString, == 0n and Number\<close>

text \<open>
  \<open>StrWhiteSpaceChar\<close> lists, in UTF-8, the code points of the productions WhiteSpace
  and LineTerminator of ECMAScript: TAB, LF, VT, FF, CR, SP, U+00A0, U+1680, U+2000 to
  U+200A, U+2028, U+2029, U+202F, U+205F, U+3000 and U+FEFF.
\<close>

definition StrWhiteSpaceChar :: "string list" where
  "StrWhiteSpaceChar =
     [[CHR 0x09], [CHR 0x0A], [CHR 0x0B], [CHR 0x0C], [CHR 0x0D], [CHR 0x20],
      [CHR 0xC2, CHR 0xA0],
      [CHR 0xE1, CHR 0x9A, CHR 0x80],
      [CHR 0xE2, CHR 0x80, CHR 0x80], [CHR 0xE2, CHR 0x80, CHR 0x81],
      [CHR 0xE2, CHR 0x80, CHR 0x82], [CHR 0xE2, CHR 0x80, CHR 0x83],
      [CHR 0xE2, CHR 0x80, CHR 0x84], [CHR 0xE2, CHR 0x80, CHR 0x85],
      [CHR 0xE2, CHR 0x80, CHR 0x86], [CHR 0xE2, CHR 0x80, CHR 0x87],
      [CHR 0xE2, CHR 0x80, CHR 0x88], [CHR 0xE2, CHR 0x80, CHR 0x89],
      [CHR 0xE2, CHR 0x80, CHR 0x8A],
      [CHR 0xE2, CHR 0x80, CHR 0xA8], [CHR 0xE2, CHR 0x80, CHR 0xA9],
      [CHR 0xE2, CHR 0x80, CHR 0xAF],
      [CHR 0xE2, CHR 0x81, CHR 0x9F],
      [CHR 0xE3, CHR 0x80, CHR 0x80],
      [CHR 0xEF, CHR 0xBB, CHR 0xBF]]"

text \<open>
  \<open>leading ws s\<close> is the length of the first of the sequences \<open>ws\<close> that \<open>s\<close> starts
  with, and 0 when it starts with none; \<open>skip ws s\<close> removes such sequences from the
  front of \<open>s\<close> for as long as there is one.
\<close>

definition leading :: "string list \<Rightarrow> string \<Rightarrow> nat" where
  "leading ws s =
     (case filter (\<lambda>w. take (length w) s = w) ws of [] \<Rightarrow> 0 | w # _ \<Rightarrow> length w)"

function skip :: "string list \<Rightarrow> string \<Rightarrow> string" where
  "skip ws s = (if leading ws s = 0 then s else skip ws (drop (leading ws s) s))"
  by pat_completeness auto
termination
proof (relation "measure (\<lambda>(ws, s). length s)")
  show "wf (measure (\<lambda>(ws, s). length s))" by simp
next
  fix ws :: "string list" and s :: string
  assume "leading ws s \<noteq> 0"
  then obtain w where "take (length w) s = w" "length w \<noteq> 0"
    by (auto simp: leading_def filter_eq_Cons_iff split: list.splits)
  then have "s \<noteq> []" by auto
  with \<open>leading ws s \<noteq> 0\<close>
  show "((ws, drop (leading ws s) s), (ws, s)) \<in> measure (\<lambda>(ws, s). length s)"
    by simp
qed

declare skip.simps [simp del]

text \<open>White space goes from both ends, as StringToBigInt and StringToNumber have it.\<close>

definition trim :: "string \<Rightarrow> string" where
  "trim s = rev (skip (map rev StrWhiteSpaceChar) (rev (skip StrWhiteSpaceChar s)))"

definition digit_value :: "int \<Rightarrow> char \<Rightarrow> int option" where
  "digit_value radix c =
     (let n = (of_char c :: int);
          v = (if 48 \<le> n \<and> n \<le> 57 then n - 48
               else if 97 \<le> n \<and> n \<le> 102 then n - 87
               else if 65 \<le> n \<and> n \<le> 70 then n - 55
               else radix)
      in if v < radix then Some v else None)"

fun digits_value :: "int \<Rightarrow> string \<Rightarrow> int \<Rightarrow> int option" where
  "digits_value radix [] acc = Some acc"
| "digits_value radix (c # cs) acc =
     (case digit_value radix c of
        None \<Rightarrow> None
      | Some d \<Rightarrow> digits_value radix cs (radix * acc + d))"

text \<open>One digit at least, and no separators.\<close>

definition digits :: "int \<Rightarrow> string \<Rightarrow> int option" where
  "digits radix s = (if s = [] then None else digits_value radix s 0)"

definition SignedInteger :: "string \<Rightarrow> int option" where
  "SignedInteger s =
     (case s of
        [] \<Rightarrow> None
      | c # cs \<Rightarrow>
          if c = CHR ''-'' then map_option uminus (digits 10 cs)
          else if c = CHR ''+'' then digits 10 cs
          else digits 10 s)"

text \<open>
  StrIntegerLiteral: a signed run of decimal digits, or an unsigned literal with one of
  the prefixes \<^verbatim>\<open>0x\<close>, \<^verbatim>\<open>0o\<close>, \<^verbatim>\<open>0b\<close>, in either case of the letter.
\<close>

fun StrIntegerLiteral :: "string \<Rightarrow> int option" where
  "StrIntegerLiteral (c # x # ds) =
     (if c = CHR ''0'' \<and> (x = CHR ''x'' \<or> x = CHR ''X'') then digits 16 ds
      else if c = CHR ''0'' \<and> (x = CHR ''o'' \<or> x = CHR ''O'') then digits 8 ds
      else if c = CHR ''0'' \<and> (x = CHR ''b'' \<or> x = CHR ''B'') then digits 2 ds
      else SignedInteger (c # x # ds))"
| "StrIntegerLiteral s = SignedInteger s"

text \<open>
  The abstract operation StringToBigInt: the empty string and white space alone are 0,
  and \<open>None\<close> is \<^verbatim>\<open>undefined\<close>.
\<close>

definition StringToBigInt :: "string \<Rightarrow> int option" where
  "StringToBigInt str =
     (let s = trim str in if s = [] then Some 0 else StrIntegerLiteral s)"

text \<open>\<^verbatim>\<open>BigInt(s)\<close> on a string throws a SyntaxError where StringToBigInt is undefined.\<close>

definition BigInt :: "string \<Rightarrow> js_error + int" where
  "BigInt s = (case StringToBigInt s of None \<Rightarrow> Inl SyntaxError | Some i \<Rightarrow> Inr i)"

text \<open>
  \<^verbatim>\<open>s == 0n\<close> for a string \<open>s\<close>: the string goes through StringToBigInt, and the
  comparison is false where that is undefined.
\<close>

definition balance_is_0n :: "string \<Rightarrow> bool" where
  "balance_is_0n b = (StringToBigInt b = Some 0)"

text \<open>The decimal digits of a non-negative integer, most significant first.\<close>

function decimal :: "int \<Rightarrow> string" where
  "decimal n =
     (if n < 10 then [char_of (48 + n)]
      else decimal (n div 10) @ [char_of (48 + n mod 10)])"
  by pat_completeness auto
termination
  by (relation "measure nat") auto

declare decimal.simps [simp del]

text \<open>\<^verbatim>\<open>i.toString()\<close> of a BigInt.\<close>

definition toString :: "int \<Rightarrow> string" where
  "toString i = (if i < 0 then CHR ''-'' # decimal (- i) else decimal i)"

text \<open>
  The binary64 value nearest to a non-negative integer, ties to even, as an integer.
\<close>

function bit_length :: "int \<Rightarrow> nat" where
  "bit_length n = (if n \<le> 0 then 0 else Suc (bit_length (n div 2)))"
  by pat_completeness auto
termination
  by (relation "measure nat") auto

declare bit_length.simps [simp del]

definition nearest_double :: "int \<Rightarrow> int" where
  "nearest_double n =
     (if n < 2 ^ 53 then n
      else
        let e = bit_length n - 53;
            q = n div 2 ^ e;
            r = n mod 2 ^ e;
            h = 2 ^ (e - 1);
            q' = (if h < r \<or> (r = h \<and> odd q) then q + 1 else q)
        in q' * 2 ^ e)"

text \<open>
  \<^verbatim>\<open>Number(s)\<close> is computed where \<open>s\<close> is the text of an integer of at most twenty
  digits, which ECMAScript rounds to the nearest binary64 value. For every other string
  (a fraction, an exponent, \<^verbatim>\<open>Infinity\<close>, a longer integer, whose rounding is left to
  the implementation, a negative zero, no number at all) the value is \<open>Number_of s\<close>.
  The strings that reach \<open>Number\<close> in \<open>findQuotes\<close> are balances, which
  \<open>getTokenAccounts\<close> writes with \<open>toString\<close>.
\<close>

definition Number :: "string \<Rightarrow> js_number" where
  "Number s =
     (case StringToBigInt s of
        None \<Rightarrow> Number_of s
      | Some i \<Rightarrow>
          if \<bar>i\<bar> < 10 ^ 20 \<and> \<not> (i = 0 \<and> CHR ''-'' \<in> set s)
          then Finite (if i < 0 then - nearest_double (- i) else nearest_double i)
          else Number_of s)"

section \<open>getTokenAccounts\<close>

text \<open>
  The two program ids: the constant of \<^verbatim>\<open>@solana/spl-token\<close> and the literal of
  line 85.
\<close>

definition TOKEN_PROGRAM_ID :: string where
  "TOKEN_PROGRAM_ID = ''TokenkegQfeZyiNwAJbNbGKPFXCWuBvf9Ss623VQ5DA''"

definition TOKEN_2022_PROGRAM_ID :: string where
  "TOKEN_2022_PROGRAM_ID = ''TokenzQdBNbLqP5VEhdkAS6EPFLC1PHnBqCXEpPxuEb''"

text \<open>
  The \<^verbatim>\<open>accounts.forEach\<close> of lines 96 to 115, with the array \<^verbatim>\<open>tokens\<close> as the
  accumulator. \<^verbatim>\<open>BigInt\<close> runs before the directory is consulted, so a malformed
  amount throws for a known and for an unknown mint alike. The test of line 102 is on
  the value of \<^verbatim>\<open>tokenList[mintAddress]\<close>: the listed entries are objects and the
  inherited values are functions or an object, so every value there is passes it.
\<close>

fun forEach_account ::
  "(string \<rightharpoonup> TokenInfo) \<Rightarrow> RawAccount list \<Rightarrow> TokenBalance list \<Rightarrow> js_error + TokenBalance list"
where
  "forEach_account tokenList [] tokens = Inr tokens"
| "forEach_account tokenList (acc # accounts) tokens =
     (case BigInt (tokenAmount acc) of
        Inl e \<Rightarrow> Inl e
      | Inr tokenBalance \<Rightarrow>
          (case Get tokenList (mint acc) of
             None \<Rightarrow> forEach_account tokenList accounts tokens
           | Some v \<Rightarrow>
               forEach_account tokenList accounts
                 (tokens @ [\<lparr>account = acc, token = v, balance = toString tokenBalance\<rparr>])))"

definition getTokenAccounts ::
  "string \<Rightarrow> Connection \<Rightarrow> (string \<rightharpoonup> TokenInfo) \<Rightarrow> js_error + TokenBalance list"
where
  "getTokenAccounts wallet solanaConnection tokenList =
     (case getParsedProgramAccounts solanaConnection TOKEN_PROGRAM_ID
             [DataSize 165, Memcmp 32 wallet] of
        Inl e \<Rightarrow> Inl e
      | Inr accountsOld \<Rightarrow>
          (case getParsedProgramAccounts solanaConnection TOKEN_2022_PROGRAM_ID
                  [DataSize 182, Memcmp 32 wallet] of
             Inl e \<Rightarrow> Inl e
           | Inr accountsNew \<Rightarrow> forEach_account tokenList (accountsOld @ accountsNew) []))"

section \<open>Events, traces and Promise.all\<close>

datatype error_detail = Message string | Caught js_error

datatype outcome = Resolves | Rejects js_error

text \<open>
  What a run does that the outside can see: the six callbacks, the remote calls,
  \<^verbatim>\<open>console.error\<close>, and the settling of the promise the function returned. The
  first argument of a callback is the id, \<^verbatim>\<open>token.address\<close> of an asset, which is
  \<^verbatim>\<open>undefined\<close> on an inherited value.
\<close>

datatype event =
    FoundAssetCallback "string option" TokenBalance
  | FoundQuoteCallback "string option" QuoteResponse
  | FoundSwapCallback "string option" SwapResponse
  | ErrorCallback "string option" error_detail
  | TransactionStateCallback "string option" string
  | TransactionIdCallback "string option" string
  | QuoteGetCall QuoteGetRequest
  | SwapPostCall SwapPostRequest
  | GetLatestBlockhashCall
  | SignAllTransactionsCall "VersionedTransaction list"
  | SendAndConfirmCall VersionedTransaction
  | ConsoleError js_error
  | Settled outcome

text \<open>
  Every event is tagged with the function body that produced it: \<open>Main\<close> is the
  body of the exported function, \<open>Branch i\<close> the call of the asynchronous arrow
  function on element \<open>i\<close> of the mapped array.
\<close>

datatype actor = Main | Branch nat

type_synonym trace = "(actor \<times> event) list"

text \<open>
  The body of an asynchronous arrow function: \<open>Inr segments\<close> when it runs to its end,
  the segments cut at each \<^verbatim>\<open>await\<close>; \<open>Inl e\<close> when it throws \<open>e\<close> before its first
  event, so that its promise is rejected.
\<close>

type_synonym body = "js_error + event list list"

fun segments :: "body \<Rightarrow> event list list" where
  "segments (Inl e) = []"
| "segments (Inr segs) = segs"

fun first_rejection :: "body list \<Rightarrow> js_error option" where
  "first_rejection [] = None"
| "first_rejection (Inl e # bodies) = Some e"
| "first_rejection (Inr segs # bodies) = first_rejection bodies"

definition flush :: "(actor \<times> event list list) \<Rightarrow> trace" where
  "flush p = map (Pair (fst p)) (concat (snd p))"

text \<open>
  The event loop. Entry \<open>k\<close> of the schedule resumes suspended body \<open>k\<close>, which runs its
  next segment; an entry that names no body, or one that has finished, is skipped. When
  the schedule is used up, what is left runs to its end, body by body.
\<close>

fun resume :: "nat list \<Rightarrow> (actor \<times> event list list) list \<Rightarrow> trace" where
  "resume [] pending = concat (map flush pending)"
| "resume (k # sched) pending =
     (if k < length pending then
        (case pending ! k of
           (who, []) \<Rightarrow> resume sched pending
         | (who, seg # segs) \<Rightarrow>
             map (Pair who) seg @ resume sched (pending[k := (who, segs)]))
      else resume sched pending)"

text \<open>
  \<^verbatim>\<open>await Promise.all(xs.map(async ...))\<close> followed by the rest of the caller.
  \<^verbatim>\<open>map\<close> calls the arrow function on every element in turn, and each call runs up to
  its first \<^verbatim>\<open>await\<close> before the next one starts: the schedule begins with
  \<open>0, 1, ..., n - 1\<close>. When no body throws, the caller goes on (\<open>on_fulfilled\<close>) after
  every body has finished. When one throws, \<^verbatim>\<open>Promise.all\<close> rejects with the first
  error, and the caller's handler (\<open>on_rejected\<close>) is one more suspended body: the
  other bodies go on, before or after it.
\<close>

definition Promise_all ::
  "nat list \<Rightarrow> body list \<Rightarrow> event list \<Rightarrow> (js_error \<Rightarrow> event list) \<Rightarrow> trace"
where
  "Promise_all sched bodies on_fulfilled on_rejected =
     (let pending = map (\<lambda>(i, b). (Branch i, segments b)) (enumerate 0 bodies);
          order = [0..<length bodies] @ sched
      in case first_rejection bodies of
           None \<Rightarrow> resume order pending @ map (Pair Main) on_fulfilled
         | Some e \<Rightarrow> resume order (pending @ [(Main, [on_rejected e])]))"

section \<open>findQuotes\<close>

text \<open>
  The asynchronous arrow function of lines 241 to 278, on element \<open>i\<close>. The parameter
  \<^verbatim>\<open>outputMint\<close> of the source is \<open>outMint\<close> here, \<open>outputMint\<close> being the field of
  the request.
\<close>

definition quote_body ::
  "DefaultApi \<Rightarrow> string \<Rightarrow> string \<Rightarrow> nat \<Rightarrow> TokenBalance \<Rightarrow> event list list"
where
  "quote_body quoteApi outMint walletAddress i a =
     (let assetId = token_address (token a);
          quoteRequest = \<lparr>inputMint = assetId, outputMint = outMint, amount = Number (balance a)\<rparr>
      in [FoundAssetCallback assetId a, QuoteGetCall quoteRequest] #
         (case quoteGet quoteApi i quoteRequest of
            Inl quoteErr \<Rightarrow> [[ErrorCallback assetId (Message ''Couldn't get quote'')]]
          | Inr quote \<Rightarrow>
              (let rq = \<lparr>userPublicKey = walletAddress, quoteResponse = quote\<rparr>
               in [FoundQuoteCallback assetId quote, SwapPostCall rq] #
                  (case swapPost quoteApi i rq of
                     Inl swapErr \<Rightarrow>
                       [[ErrorCallback assetId (Message ''Couldn't get swap transaction'')]]
                   | Inr sw \<Rightarrow> [[FoundSwapCallback assetId sw]]))))"

definition findQuotes ::
  "nat list \<Rightarrow> Connection \<Rightarrow> (string \<rightharpoonup> TokenInfo) \<Rightarrow> string \<Rightarrow> string \<Rightarrow> DefaultApi \<Rightarrow> trace"
where
  "findQuotes sched connection tokens outMint walletAddress quoteApi =
     (case getTokenAccounts walletAddress connection tokens of
        Inl error \<Rightarrow> [(Main, ConsoleError error), (Main, Settled Resolves)]
      | Inr assets \<Rightarrow>
          Promise_all sched
            (map (\<lambda>(i, a). Inr (quote_body quoteApi outMint walletAddress i a))
               (enumerate 0 assets))
            [Settled Resolves]
            (\<lambda>error. [ConsoleError error, Settled Resolves]))"

section \<open>sweepTokens\<close>

text \<open>
  The array \<^verbatim>\<open>transactions\<close>, and beside it the closure transactions the loop
  constructs: the source binds each to the local \<^verbatim>\<open>closeAccountTx\<close> and never reads
  it again, so the second field is what the loop built and dropped.
\<close>

record assembled =
  transactions :: "(string option \<times> VersionedTransaction) list"
  dropped :: "VersionedTransaction list"

definition closeAccountTx :: "string \<Rightarrow> string \<Rightarrow> VersionedTransaction" where
  "closeAccountTx pk blockHash =
     \<lparr>payerKey = pk, recentBlockhash = blockHash,
      instructions = [CloseAccount TOKEN_PROGRAM_ID pk pk []], signatures = []\<rparr>"

text \<open>Lines 161 to 167: the payload through \<^verbatim>\<open>atob\<close>, its char codes, \<^verbatim>\<open>deserialize\<close>.\<close>

definition decode_swap :: "Runtime \<Rightarrow> SwapResponse \<Rightarrow> js_error + VersionedTransaction" where
  "decode_swap rt sw =
     (case atob rt (swapTransaction sw) of
        Inl e \<Rightarrow> Inl e
      | Inr swapTransactionBuf \<Rightarrow> deserialize rt (map of_char swapTransactionBuf))"

text \<open>The body of \<^verbatim>\<open>assets.forEach\<close>, lines 143 to 170.\<close>

definition sweep_asset ::
  "Runtime \<Rightarrow> WalletContextState \<Rightarrow> string \<Rightarrow> assembled \<Rightarrow> Asset \<Rightarrow> js_error + assembled"
where
  "sweep_asset rt wallet blockHash st a =
     (if checked a = Some True \<and> publicKey wallet \<noteq> None then
        (let pk = the (publicKey wallet);
             st1 = (if swap a \<noteq> None \<or> balance_is_0n (balance (asset a))
                    then st\<lparr>dropped := dropped st @ [closeAccountTx pk blockHash]\<rparr>
                    else st)
         in case swap a of
              None \<Rightarrow> Inr st1
            | Some sw \<Rightarrow>
                (case decode_swap rt sw of
                   Inl e \<Rightarrow> Inl e
                 | Inr transaction \<Rightarrow>
                     Inr (st1\<lparr>transactions :=
                            transactions st1 @ [(token_address (token (asset a)), transaction)]\<rparr>)))
      else Inr st)"

fun forEach_asset ::
  "Runtime \<Rightarrow> WalletContextState \<Rightarrow> string \<Rightarrow> Asset list \<Rightarrow> assembled \<Rightarrow> js_error + assembled"
where
  "forEach_asset rt wallet blockHash [] st = Inr st"
| "forEach_asset rt wallet blockHash (a # assets) st =
     (case sweep_asset rt wallet blockHash st a of
        Inl e \<Rightarrow> Inl e
      | Inr st' \<Rightarrow> forEach_asset rt wallet blockHash assets st')"

text \<open>
  The asynchronous arrow function of lines 184 to 202 on signed transaction \<open>i\<close>.
  \<^verbatim>\<open>transactions[i][0]\<close> throws a TypeError when the wallet returned more
  transactions than it was given. The call event stands for the whole expression
  \<^verbatim>\<open>sendAndConfirmRawTransaction(connection, Buffer.from(transaction.serialize()), {})\<close>.
\<close>

definition submit_body ::
  "Connection \<Rightarrow> (string option \<times> VersionedTransaction) list \<Rightarrow> nat \<Rightarrow> VersionedTransaction \<Rightarrow> body"
where
  "submit_body connection txs i transaction =
     (if i < length txs then
        (let assetId = fst (txs ! i)
         in Inr [[TransactionStateCallback assetId ''Scooping'', SendAndConfirmCall transaction],
                 (case sendAndConfirmRawTransaction connection i transaction of
                    Inr result \<Rightarrow> [TransactionStateCallback assetId ''Scooped'']
                  | Inl err \<Rightarrow>
                      [TransactionStateCallback assetId ''Error'',
                       ErrorCallback assetId (Caught err)])])
      else Inl TypeError)"

text \<open>The handler of lines 204 to 208.\<close>

definition signing_failed :: "js_error \<Rightarrow> event list" where
  "signing_failed error =
     [ConsoleError error, ErrorCallback (Some '''') (Message ''Failed signing transactions!''),
      Settled Resolves]"

definition sweepTokens ::
  "Runtime \<Rightarrow> nat list \<Rightarrow> WalletContextState \<Rightarrow> Connection \<Rightarrow> Asset list \<Rightarrow> trace"
where
  "sweepTokens rt sched wallet connection assets =
     (Main, GetLatestBlockhashCall) #
     (case getLatestBlockhash connection of
        Inl e \<Rightarrow> [(Main, Settled (Rejects e))]
      | Inr blockHash \<Rightarrow>
          (case forEach_asset rt wallet blockHash assets \<lparr>transactions = [], dropped = []\<rparr> of
             Inl e \<Rightarrow> [(Main, Settled (Rejects e))]
           | Inr st \<Rightarrow>
               (case signAllTransactions wallet of
                  None \<Rightarrow> [(Main, Settled Resolves)]
                | Some sign \<Rightarrow>
                    (Main, SignAllTransactionsCall (map snd (transactions st))) #
                    (case sign (map snd (transactions st)) of
                       Inl error \<Rightarrow> map (Pair Main) (signing_failed error)
                     | Inr signedTransactions \<Rightarrow>
                         Promise_all sched
                           (map (\<lambda>(i, t). submit_body connection (transactions st) i t)
                              (enumerate 0 signedTransactions))
                           [Settled Resolves] signing_failed))))"

section \<open>Reading a trace\<close>

definition by_actor :: "actor \<Rightarrow> trace \<Rightarrow> event list" where
  "by_actor who tr = map snd (filter (\<lambda>x. fst x = who) tr)"

fun callback_id :: "event \<Rightarrow> string option option" where
  "callback_id (FoundAssetCallback k a) = Some k"
| "callback_id (FoundQuoteCallback k q) = Some k"
| "callback_id (FoundSwapCallback k sw) = Some k"
| "callback_id (ErrorCallback k d) = Some k"
| "callback_id (TransactionStateCallback k st) = Some k"
| "callback_id (TransactionIdCallback k txid) = Some k"
| "callback_id e = None"

text \<open>The callbacks made with a given id, in the order they were made.\<close>

definition callbacks_for :: "string option \<Rightarrow> trace \<Rightarrow> event list" where
  "callbacks_for k tr = filter (\<lambda>e. callback_id e = Some k) (map snd tr)"

text \<open>All callbacks of a run, whatever their id.\<close>

definition callbacks :: "trace \<Rightarrow> event list" where
  "callbacks tr = filter (\<lambda>e. callback_id e \<noteq> None) (map snd tr)"

fun state_for :: "string option \<Rightarrow> event \<Rightarrow> string option" where
  "state_for k (TransactionStateCallback k' st) = (if k' = k then Some st else None)"
| "state_for k e = None"

text \<open>The states \<^verbatim>\<open>transactionStateCallback\<close> reported for an id, in order.\<close>

definition states_for :: "string option \<Rightarrow> trace \<Rightarrow> string list" where
  "states_for k tr = List.map_filter (state_for k) (map snd tr)"

fun is_submission :: "event \<Rightarrow> bool" where
  "is_submission (SendAndConfirmCall t) = True"
| "is_submission e = False"

fun is_transaction_id :: "event \<Rightarrow> bool" where
  "is_transaction_id (TransactionIdCallback k txid) = True"
| "is_transaction_id e = False"

fun is_settled :: "event \<Rightarrow> bool" where
  "is_settled (Settled out) = True"
| "is_settled e = False"


text \<open>
  The failures of decoding the swap payloads of the approved assets, in the order of the
  assets.
\<close>

definition decode_failure :: "Runtime \<Rightarrow> Asset \<Rightarrow> js_error option" where
  "decode_failure rt a =
     (if checked a = Some True then
        (case swap a of
           None \<Rightarrow> None
         | Some sw \<Rightarrow> (case decode_swap rt sw of Inl e \<Rightarrow> Some e | Inr t \<Rightarrow> None))
      else None)"

definition decode_failures :: "Runtime \<Rightarrow> Asset list \<Rightarrow> js_error list" where
  "decode_failures rt assets = List.map_filter (decode_failure rt) assets"

section \<open>Example inputs\<close>

definition token_info :: "string \<Rightarrow> TokenInfo" where
  "token_info a =
     \<lparr>address = a, chainId = 101, decimals = 6, name = a, symbol = a, logoURI = [],
      tags = [], strict = None\<rparr>"

definition directory_XY :: "string \<rightharpoonup> TokenInfo" where
  "directory_XY = [''X'' \<mapsto> token_info ''X'', ''Y'' \<mapsto> token_info ''Y'']"

text \<open>
  A ledger with two accounts of the token program, one of them of a mint the directory
  does not list, and one account of the token-2022 program.
\<close>

definition ledger_XQY :: Connection where
  "ledger_XQY =
     \<lparr>getParsedProgramAccounts =
        (\<lambda>program filters.
           if program = TOKEN_PROGRAM_ID then
             Inr [\<lparr>pubkey = ''acc1'', mint = ''X'', tokenAmount = ''18446744073709551615''\<rparr>,
                  \<lparr>pubkey = ''acc2'', mint = ''Q'', tokenAmount = ''5''\<rparr>]
           else Inr [\<lparr>pubkey = ''acc3'', mint = ''Y'', tokenAmount = ''0''\<rparr>]),
      getLatestBlockhash = Inr ''H1'',
      sendAndConfirmRawTransaction = (\<lambda>i t. Inr ''signature'')\<rparr>"

definition balance_X :: TokenBalance where
  "balance_X =
     \<lparr>account = \<lparr>pubkey = ''acc1'', mint = ''X'', tokenAmount = ''18446744073709551615''\<rparr>,
      token = Listed (token_info ''X''), balance = ''18446744073709551615''\<rparr>"

definition balance_Y :: TokenBalance where
  "balance_Y =
     \<lparr>account = \<lparr>pubkey = ''acc3'', mint = ''Y'', tokenAmount = ''0''\<rparr>,
      token = Listed (token_info ''Y''), balance = ''0''\<rparr>"

text \<open>A wallet that holds two accounts of the same mint.\<close>

definition directory_M :: "string \<rightharpoonup> TokenInfo" where
  "directory_M = [''M'' \<mapsto> token_info ''M'']"

definition ledger_MM :: Connection where
  "ledger_MM =
     \<lparr>getParsedProgramAccounts =
        (\<lambda>program filters.
           if program = TOKEN_PROGRAM_ID then
             Inr [\<lparr>pubkey = ''acc1'', mint = ''M'', tokenAmount = ''5''\<rparr>,
                  \<lparr>pubkey = ''acc2'', mint = ''M'', tokenAmount = ''7''\<rparr>]
           else Inr []),
      getLatestBlockhash = Inr ''H1'',
      sendAndConfirmRawTransaction = (\<lambda>i t. Inr ''signature'')\<rparr>"

definition balance_M5 :: TokenBalance where
  "balance_M5 =
     \<lparr>account = \<lparr>pubkey = ''acc1'', mint = ''M'', tokenAmount = ''5''\<rparr>,
      token = Listed (token_info ''M''), balance = ''5''\<rparr>"

definition balance_M7 :: TokenBalance where
  "balance_M7 =
     \<lparr>account = \<lparr>pubkey = ''acc2'', mint = ''M'', tokenAmount = ''7''\<rparr>,
      token = Listed (token_info ''M''), balance = ''7''\<rparr>"

text \<open>A ledger that cannot be reached.\<close>

definition ledger_down :: Connection where
  "ledger_down =
     \<lparr>getParsedProgramAccounts = (\<lambda>program filters. Inl (Failure ''ECONNREFUSED'')),
      getLatestBlockhash = Inl (Failure ''ECONNREFUSED''),
      sendAndConfirmRawTransaction = (\<lambda>i t. Inl (Failure ''ECONNREFUSED''))\<rparr>"

text \<open>
  An aggregator that refuses the quote of the first asset and serves every other
  request.
\<close>

definition quote_of :: "QuoteGetRequest \<Rightarrow> QuoteResponse" where
  "quote_of rq =
     \<lparr>quoteInputMint = inputMint rq, inAmount = ''1'', quoteOutputMint = outputMint rq,
      outAmount = ''1''\<rparr>"

definition swap_AQID :: SwapResponse where
  "swap_AQID = \<lparr>swapTransaction = ''AQID'', lastValidBlockHeight = 1\<rparr>"

definition aggregator_first_fails :: DefaultApi where
  "aggregator_first_fails =
     \<lparr>quoteGet = (\<lambda>i rq. if i = 0 then Inl (Failure ''429'') else Inr (quote_of rq)),
      swapPost = (\<lambda>i rq. Inr swap_AQID)\<rparr>"

text \<open>
  A runtime that reads the payload \<^verbatim>\<open>AQID\<close> (the bytes 1, 2, 3) as a swap transaction
  the aggregator built against the block reference \<^verbatim>\<open>H0\<close>, and rejects everything
  else.
\<close>

definition swap_tx_H0 :: VersionedTransaction where
  "swap_tx_H0 =
     \<lparr>payerKey = ''W'', recentBlockhash = ''H0'', instructions = [Instruction ''route''],
      signatures = []\<rparr>"

definition runtime_AQID :: Runtime where
  "runtime_AQID =
     \<lparr>atob = (\<lambda>s. if s = ''AQID'' then Inr [CHR 0x01, CHR 0x02, CHR 0x03]
                   else Inl (Failure ''InvalidCharacterError'')),
      deserialize = (\<lambda>bytes. if bytes = [1, 2, 3] then Inr swap_tx_H0
                             else Inl (Failure ''Reached end of buffer unexpectedly''))\<rparr>"

definition signed_by :: "string \<Rightarrow> VersionedTransaction \<Rightarrow> VersionedTransaction" where
  "signed_by w t = t\<lparr>signatures := [w]\<rparr>"

definition wallet_W :: WalletContextState where
  "wallet_W =
     \<lparr>publicKey = Some ''W'',
      signAllTransactions = Some (\<lambda>txs. Inr (map (signed_by ''W'') txs))\<rparr>"

definition wallet_refusing :: WalletContextState where
  "wallet_refusing =
     \<lparr>publicKey = Some ''W'',
      signAllTransactions = Some (\<lambda>txs. Inl (Failure ''User rejected the request''))\<rparr>"

definition wallet_without_signAll :: WalletContextState where
  "wallet_without_signAll = \<lparr>publicKey = Some ''W'', signAllTransactions = None\<rparr>"

definition wallet_disconnected :: WalletContextState where
  "wallet_disconnected =
     \<lparr>publicKey = None,
      signAllTransactions = Some (\<lambda>txs. Inr (map (signed_by ''W'') txs))\<rparr>"

definition wallet_bare :: WalletContextState where
  "wallet_bare = \<lparr>publicKey = None, signAllTransactions = None\<rparr>"

text \<open>
  Four approved assets: \<open>X\<close>, \<open>Z\<close> and \<open>V\<close> with a swap payload, \<open>Y\<close> with a zero
  balance and none. The ledger \<open>ledger_second_fails\<close> confirms every submission but the second.
\<close>

definition asset_X :: Asset where
  "asset_X = \<lparr>asset = balance_X, swap = Some swap_AQID, checked = Some True\<rparr>"

definition asset_Y :: Asset where
  "asset_Y = \<lparr>asset = balance_Y, swap = None, checked = Some True\<rparr>"

definition asset_Z :: Asset where
  "asset_Z =
     \<lparr>asset = \<lparr>account = \<lparr>pubkey = ''acc4'', mint = ''Z'', tokenAmount = ''12''\<rparr>,
               token = Listed (token_info ''Z''), balance = ''12''\<rparr>,
      swap = Some swap_AQID, checked = Some True\<rparr>"

definition asset_V :: Asset where
  "asset_V =
     \<lparr>asset = \<lparr>account = \<lparr>pubkey = ''acc5'', mint = ''V'', tokenAmount = ''3''\<rparr>,
               token = Listed (token_info ''V''), balance = ''3''\<rparr>,
      swap = Some swap_AQID, checked = Some True\<rparr>"

text \<open>An approved asset whose swap payload is not base64.\<close>

definition asset_bad :: Asset where
  "asset_bad =
     \<lparr>asset = \<lparr>account = \<lparr>pubkey = ''acc6'', mint = ''B'', tokenAmount = ''9''\<rparr>,
               token = Listed (token_info ''B''), balance = ''9''\<rparr>,
      swap = Some \<lparr>swapTransaction = ''%%%'', lastValidBlockHeight = 1\<rparr>,
      checked = Some True\<rparr>"

definition ledger_second_fails :: Connection where
  "ledger_second_fails =
     \<lparr>getParsedProgramAccounts = (\<lambda>program filters. Inr []),
      getLatestBlockhash = Inr ''H1'',
      sendAndConfirmRawTransaction =
        (\<lambda>i t. if i = 1 then Inl (Failure ''Transaction was not confirmed'')
                else Inr ''signature'')\<rparr>"

section \<open>The event loop keeps each body's order\<close>

text \<open>
  Whatever the schedule, the events of one body appear in the trace in the body's own
  order and all of them appear; and every event of the trace comes from one of the
  suspended bodies.
\<close>

lemma filter_flush:
  "filter (\<lambda>x. fst x = a) (flush p) = (if fst p = a then flush p else [])"
  by (auto simp: flush_def filter_map comp_def)

lemma flush_absent:
  "a \<notin> fst ` set ps \<Longrightarrow> filter (\<lambda>x. fst x = a) (concat (map flush ps)) = []"
  by (induction ps) (auto simp: filter_flush)

lemma flush_project:
  "distinct (map fst ps) \<Longrightarrow> (a, segs) \<in> set ps \<Longrightarrow>
   filter (\<lambda>x. fst x = a) (concat (map flush ps)) = map (Pair a) (concat segs)"
proof (induction ps)
  case Nil
  then show ?case by simp
next
  case (Cons p ps)
  show ?case
  proof (cases "fst p = a")
    case True
    with Cons.prems have p: "p = (a, segs)" and "a \<notin> fst ` set ps"
      by (force simp: image_iff)+
    then have "filter (\<lambda>x. fst x = a) (concat (map flush ps)) = []"
      by (simp add: flush_absent)
    moreover have "filter (\<lambda>x. fst x = a) (flush (a, segs)) = map (Pair a) (concat segs)"
      by (simp add: flush_def filter_map comp_def)
    ultimately show ?thesis using p by simp
  next
    case False
    with Cons show ?thesis by (auto simp: filter_flush)
  qed
qed

lemma resume_project:
  "distinct (map fst ps) \<Longrightarrow> (a, segs) \<in> set ps \<Longrightarrow>
   filter (\<lambda>x. fst x = a) (resume sched ps) = map (Pair a) (concat segs)"
proof (induction sched arbitrary: ps segs)
  case Nil
  then show ?case by (simp add: flush_project)
next
  case (Cons k sched)
  show ?case
  proof (cases "k < length ps")
    case False
    with Cons show ?thesis by simp
  next
    case True
    obtain who ss where pk: "ps ! k = (who, ss)" by (cases "ps ! k")
    show ?thesis
    proof (cases ss)
      case Nil
      with Cons True pk show ?thesis by simp
    next
      case ss: (Cons seg rest)
      let ?ps' = "ps[k := (who, rest)]"
      have fsts: "map fst ?ps' = map fst ps"
        using True pk by (simp add: map_update) (metis fst_conv list_update_id nth_map)
      then have d': "distinct (map fst ?ps')" using Cons.prems(1) by simp
      have step: "resume (k # sched) ps = map (Pair who) seg @ resume sched ?ps'"
        using True pk ss by simp
      show ?thesis
      proof (cases "who = a")
        case same: True
        have "(a, ss) \<in> set ps" using pk True same by (metis nth_mem)
        with Cons.prems have "segs = ss"
          using eq_key_imp_eq_value by fastforce
        moreover have "(a, rest) \<in> set ?ps'"
          using True same by (auto simp: set_update_memI)
        ultimately show ?thesis
          using Cons.IH[OF d', of rest] step same ss by (simp add: filter_map comp_def)
      next
        case other: False
        have "(a, segs) \<in> set ?ps'"
        proof -
          obtain j where j: "j < length ps" "ps ! j = (a, segs)"
            using Cons.prems(2) by (auto simp: in_set_conv_nth)
          with pk other have "j \<noteq> k" by auto
          with j have "?ps' ! j = (a, segs)" "j < length ?ps'" by simp_all
          then show ?thesis by (metis nth_mem)
        qed
        then show ?thesis
          using Cons.IH[OF d', of segs] step other by (simp add: filter_map comp_def)
      qed
    qed
  qed
qed

lemma resume_origin:
  "x \<in> set (resume sched ps) \<Longrightarrow> \<exists>segs. (fst x, segs) \<in> set ps \<and> snd x \<in> set (concat segs)"
proof (induction sched arbitrary: ps)
  case Nil
  then obtain w ss where "(w, ss) \<in> set ps" "x \<in> set (flush (w, ss))" by auto
  then have "(fst x, ss) \<in> set ps \<and> snd x \<in> set (concat ss)"
    by (auto simp: flush_def)
  then show ?case by blast
next
  case (Cons k sched)
  show ?case
  proof (cases "k < length ps")
    case False
    with Cons show ?thesis by simp
  next
    case True
    obtain who ss where pk: "ps ! k = (who, ss)" by (cases "ps ! k")
    have mem: "(who, ss) \<in> set ps" using pk True by (metis nth_mem)
    show ?thesis
    proof (cases ss)
      case Nil
      with Cons True pk show ?thesis by simp
    next
      case ss: (Cons seg rest)
      from Cons.prems True pk ss
      consider "x \<in> Pair who ` set seg" | "x \<in> set (resume sched (ps[k := (who, rest)]))"
        by auto
      then show ?thesis
      proof cases
        case 1
        then have "(fst x, ss) \<in> set ps \<and> snd x \<in> set (concat ss)"
          using mem ss by auto
        then show ?thesis by blast
      next
        case 2
        from Cons.IH[OF 2] obtain segs where
          s: "(fst x, segs) \<in> set (ps[k := (who, rest)])" "snd x \<in> set (concat segs)" by blast
        from s(1) have "(fst x, segs) \<in> set ps \<or> (fst x, segs) = (who, rest)"
          by (meson insertE set_update_subset_insert subsetD)
        then show ?thesis
        proof
          assume "(fst x, segs) \<in> set ps"
          with s(2) show ?thesis by blast
        next
          assume "(fst x, segs) = (who, rest)"
          then have "(fst x, ss) \<in> set ps \<and> snd x \<in> set (concat ss)"
            using mem ss s(2) by auto
          then show ?thesis by blast
        qed
      qed
    qed
  qed
qed

lemma pending_fst:
  "map fst (map (\<lambda>(i, b). (Branch i, segments b)) (enumerate n bodies))
     = map Branch [n..<n + length bodies]"
  by (induction bodies arbitrary: n) (simp_all add: upt_rec)

lemma pending_mem:
  "i < length bodies \<Longrightarrow>
   (Branch i, segments (bodies ! i)) \<in> set (map (\<lambda>(i, b). (Branch i, segments b)) (enumerate 0 bodies))"
proof -
  assume i: "i < length bodies"
  then have "enumerate 0 bodies ! i = (i, bodies ! i)" by (simp add: nth_enumerate_eq)
  with i have "(i, bodies ! i) \<in> set (enumerate 0 bodies)"
    by (metis length_enumerate nth_mem)
  then show ?thesis by force
qed

lemma pending_cases:
  assumes "(w, segs) \<in> set (map (\<lambda>(i, b). (Branch i, segments b)) (enumerate 0 bodies))"
  shows "\<exists>i < length bodies. w = Branch i \<and> segs = segments (bodies ! i)"
proof -
  from assms obtain i b where
    "(i, b) \<in> set (enumerate 0 bodies)" "w = Branch i" "segs = segments b"
    by auto
  then show ?thesis by (auto simp: in_set_enumerate_eq)
qed

lemma Promise_all_branch:
  assumes "i < length bodies"
  shows "by_actor (Branch i) (Promise_all sched bodies ok rej) = concat (segments (bodies ! i))"
proof -
  let ?pending = "map (\<lambda>(i, b). (Branch i, segments b)) (enumerate 0 bodies)"
  let ?order = "[0..<length bodies] @ sched"
  have d: "distinct (map fst ?pending)"
    unfolding pending_fst by (simp add: distinct_map inj_on_def)
  have m: "(Branch i, segments (bodies ! i)) \<in> set ?pending"
    using assms by (rule pending_mem)
  show ?thesis
  proof (cases "first_rejection bodies")
    case None
    have "filter (\<lambda>x. fst x = Branch i) (resume ?order ?pending)
            = map (Pair (Branch i)) (concat (segments (bodies ! i)))"
      using resume_project[OF d m] .
    with None show ?thesis
      by (simp add: Promise_all_def by_actor_def comp_def)
  next
    case (Some e)
    let ?all = "?pending @ [(Main, [rej e])]"
    have d': "distinct (map fst ?all)"
      using d by (auto simp: pending_fst)
    have m': "(Branch i, segments (bodies ! i)) \<in> set ?all" using m by simp
    have "filter (\<lambda>x. fst x = Branch i) (resume ?order ?all)
            = map (Pair (Branch i)) (concat (segments (bodies ! i)))"
      using resume_project[OF d' m'] .
    with Some show ?thesis
      by (simp add: Promise_all_def by_actor_def comp_def)
  qed
qed

lemma resume_absent:
  assumes "a \<notin> fst ` set ps"
  shows "filter (\<lambda>x. fst x = a) (resume sched ps) = []"
proof -
  have "fst x \<noteq> a" if "x \<in> set (resume sched ps)" for x
    using resume_origin[OF that] assms by force
  then show ?thesis by (simp add: filter_empty_conv)
qed

lemma Promise_all_main:
  "by_actor Main (Promise_all sched bodies ok rej)
     = (case first_rejection bodies of None \<Rightarrow> ok | Some e \<Rightarrow> rej e)"
proof -
  let ?pending = "map (\<lambda>(i, b). (Branch i, segments b)) (enumerate 0 bodies)"
  let ?order = "[0..<length bodies] @ sched"
  have d: "distinct (map fst ?pending)"
    unfolding pending_fst by (simp add: distinct_map inj_on_def)
  have nomain: "Main \<notin> fst ` set ?pending"
    by force
  show ?thesis
  proof (cases "first_rejection bodies")
    case None
    with resume_absent[OF nomain, of ?order] show ?thesis
      by (simp add: Promise_all_def by_actor_def comp_def)
  next
    case (Some e)
    let ?all = "?pending @ [(Main, [rej e])]"
    have d': "distinct (map fst ?all)"
      using d by (auto simp: pending_fst)
    have "filter (\<lambda>x. fst x = Main) (resume ?order ?all) = map (Pair Main) (concat [rej e])"
      by (rule resume_project[OF d']) simp
    with Some show ?thesis
      by (simp add: Promise_all_def by_actor_def comp_def)
  qed
qed

lemma Promise_all_origin:
  assumes "x \<in> set (Promise_all sched bodies ok rej)"
  shows "(\<exists>i < length bodies. fst x = Branch i \<and> snd x \<in> set (concat (segments (bodies ! i))))
       \<or> (fst x = Main \<and>
            snd x \<in> set (case first_rejection bodies of None \<Rightarrow> ok | Some e \<Rightarrow> rej e))"
proof -
  let ?pending = "map (\<lambda>(i, b). (Branch i, segments b)) (enumerate 0 bodies)"
  let ?order = "[0..<length bodies] @ sched"
  have pend: "\<exists>i < length bodies. w = Branch i \<and> segs = segments (bodies ! i)"
    if "(w, segs) \<in> set ?pending" for w segs
    using that by (rule pending_cases)
  show ?thesis
  proof (cases "first_rejection bodies")
    case None
    with assms consider "x \<in> set (resume ?order ?pending)" | "x \<in> Pair Main ` set ok"
      by (auto simp: Promise_all_def)
    then show ?thesis
    proof cases
      case 1
      from resume_origin[OF 1] obtain segs where
        "(fst x, segs) \<in> set ?pending" "snd x \<in> set (concat segs)" by blast
      with pend[of "fst x" segs] show ?thesis by blast
    next
      case 2
      with None show ?thesis by auto
    qed
  next
    case (Some e)
    with assms have 1: "x \<in> set (resume ?order (?pending @ [(Main, [rej e])]))"
      by (simp add: Promise_all_def)
    from resume_origin[OF 1] obtain segs where
      s: "(fst x, segs) \<in> set (?pending @ [(Main, [rej e])])" "snd x \<in> set (concat segs)"
      by blast
    from s(1) have "(fst x, segs) \<in> set ?pending \<or> (fst x = Main \<and> segs = [rej e])"
      by auto
    then show ?thesis
    proof
      assume "(fst x, segs) \<in> set ?pending"
      with pend[of "fst x" segs] s(2) show ?thesis by blast
    next
      assume "fst x = Main \<and> segs = [rej e]"
      with s(2) Some show ?thesis by auto
    qed
  qed
qed

lemma by_actor_subset: "e \<in> set (by_actor who tr) \<Longrightarrow> e \<in> set (map snd tr)"
  by (auto simp: by_actor_def)

lemma resume_Nil: "resume sched [] = []"
  by (induction sched) simp_all

lemma filter_by_owner:
  assumes "\<And>x. x \<in> set tr \<Longrightarrow> P (snd x) \<Longrightarrow> fst x = a"
  shows "filter P (map snd tr) = filter P (by_actor a tr)"
proof -
  have "filter (\<lambda>x. P (snd x)) tr = filter (\<lambda>x. P (snd x)) (filter (\<lambda>x. fst x = a) tr)"
    using assms by (induction tr) auto
  then show ?thesis
    by (simp add: by_actor_def filter_map comp_def)
qed

section \<open>Decimal strings are exact\<close>

lemma digit_value_char_of:
  "0 \<le> d \<Longrightarrow> d < 10 \<Longrightarrow> digit_value 10 (char_of (48 + d)) = Some d"
  by (simp add: digit_value_def Let_def)

lemma digits_value_snoc:
  "digits_value radix (cs @ [c]) acc =
     (case digits_value radix cs acc of
        None \<Rightarrow> None
      | Some v \<Rightarrow>
          (case digit_value radix c of None \<Rightarrow> None | Some d \<Rightarrow> Some (radix * v + d)))"
  by (induction cs arbitrary: acc) (auto split: option.splits)

lemma digits_value_decimal: "0 \<le> n \<Longrightarrow> digits_value 10 (decimal n) 0 = Some n"
proof (induction n rule: decimal.induct)
  case (1 n)
  show ?case
  proof (cases "n < 10")
    case True
    with "1.prems" show ?thesis
      by (subst decimal.simps) (simp add: digit_value_char_of)
  next
    case False
    with "1.prems" have "digits_value 10 (decimal (n div 10)) 0 = Some (n div 10)"
      by (intro "1.IH") simp_all
    moreover have "digit_value 10 (char_of (48 + n mod 10)) = Some (n mod 10)"
      by (simp add: digit_value_char_of)
    ultimately show ?thesis using False
      by (subst decimal.simps) (simp add: digits_value_snoc)
  qed
qed

lemma decimal_not_Nil: "decimal n \<noteq> []"
  by (subst decimal.simps) simp

text \<open>Every character of \<open>decimal n\<close> is one of the ten digits.\<close>

lemma decimal_chars:
  "0 \<le> n \<Longrightarrow> c \<in> set (decimal n) \<Longrightarrow> 48 \<le> (of_char c :: int) \<and> (of_char c :: int) \<le> 57"
proof (induction n rule: decimal.induct)
  case (1 n)
  show ?case
  proof (cases "n < 10")
    case True
    with "1.prems" show ?thesis
      by (subst (asm) decimal.simps) simp
  next
    case False
    from "1.prems"(2) False
    consider "c \<in> set (decimal (n div 10))" | "c = char_of (48 + n mod 10)"
      by (subst (asm) decimal.simps) auto
    then show ?thesis
    proof cases
      case 1
      with "1.IH" False "1.prems"(1) show ?thesis by simp
    next
      case 2
      then show ?thesis by simp
    qed
  qed
qed

text \<open>
  White space is not a digit or a sign: a string that begins and ends with a character
  from \<^verbatim>\<open>0x21\<close> to \<^verbatim>\<open>0x7F\<close> is left alone by \<open>trim\<close>.
\<close>

lemma leading_0:
  assumes "\<And>w. w \<in> set ws \<Longrightarrow> w \<noteq> [] \<and> hd w \<noteq> c"
  shows "leading ws (c # cs) = 0"
proof -
  have "filter (\<lambda>w. take (length w) (c # cs) = w) ws = []"
  proof (simp add: filter_empty_conv, intro ballI notI)
    fix w assume w: "w \<in> set ws" "take (length w) (c # cs) = w"
    from assms[OF w(1)] obtain x xs where "w = x # xs" "x \<noteq> c" by (cases w) auto
    with w(2) show False by simp
  qed
  then show ?thesis by (simp add: leading_def)
qed

lemma skip_front:
  assumes "(33 :: int) \<le> of_char c" "(of_char c :: int) < 128"
  shows "skip StrWhiteSpaceChar (c # cs) = c # cs"
proof -
  from assms have "leading StrWhiteSpaceChar (c # cs) = 0"
    by (intro leading_0) (auto simp: StrWhiteSpaceChar_def)
  then show ?thesis by (subst skip.simps) simp
qed

lemma skip_back:
  assumes "(33 :: int) \<le> of_char c" "(of_char c :: int) < 128"
  shows "skip (map rev StrWhiteSpaceChar) (c # cs) = c # cs"
proof -
  from assms have "leading (map rev StrWhiteSpaceChar) (c # cs) = 0"
    by (intro leading_0) (auto simp: StrWhiteSpaceChar_def)
  then show ?thesis by (subst skip.simps) simp
qed

lemma trim_unchanged:
  assumes "s \<noteq> []"
      and "(33 :: int) \<le> of_char (hd s)" "(of_char (hd s) :: int) < 128"
      and "(33 :: int) \<le> of_char (last s)" "(of_char (last s) :: int) < 128"
  shows "trim s = s"
proof -
  from assms(1) obtain c cs where s: "s = c # cs" by (cases s) auto
  from assms(1) obtain d ds where r: "rev s = d # ds" by (cases "rev s") auto
  then have d: "d = last s" using assms(1) by (metis hd_rev list.sel(1))
  have "skip StrWhiteSpaceChar s = s"
    using s assms(2,3) by (simp add: skip_front)
  moreover have "skip (map rev StrWhiteSpaceChar) (rev s) = rev s"
    unfolding r using d assms(4,5) by (simp add: skip_back)
  ultimately show ?thesis by (simp add: trim_def)
qed

lemma StrIntegerLiteral_decimal:
  assumes "0 \<le> n"
  shows "StrIntegerLiteral (decimal n) = Some n"
proof -
  have digit: "c \<noteq> CHR ''-'' \<and> c \<noteq> CHR ''+'' \<and> c \<noteq> CHR ''x'' \<and> c \<noteq> CHR ''X''
             \<and> c \<noteq> CHR ''o'' \<and> c \<noteq> CHR ''O'' \<and> c \<noteq> CHR ''b'' \<and> c \<noteq> CHR ''B''"
    if "c \<in> set (decimal n)" for c
    using decimal_chars[OF assms that] by auto
  have signed: "SignedInteger (decimal n) = Some n"
  proof (cases "decimal n")
    case Nil
    with decimal_not_Nil show ?thesis by simp
  next
    case (Cons c cs)
    with digit[of c] digits_value_decimal[OF assms] show ?thesis
      by (simp add: SignedInteger_def digits_def)
  qed
  show ?thesis
  proof (cases "decimal n")
    case Nil
    with decimal_not_Nil show ?thesis by simp
  next
    case outer: (Cons c cs)
    show ?thesis
    proof (cases cs)
      case Nil
      with outer signed show ?thesis by simp
    next
      case (Cons x ds)
      with outer digit[of x] signed show ?thesis by simp
    qed
  qed
qed

lemma StringToBigInt_toString: "StringToBigInt (toString i) = Some i"
proof (cases "i < 0")
  case True
  let ?s = "CHR ''-'' # decimal (- i)"
  have ne: "decimal (- i) \<noteq> []" by (rule decimal_not_Nil)
  have "48 \<le> (of_char (last (decimal (- i))) :: int)
      \<and> (of_char (last (decimal (- i))) :: int) \<le> 57"
    using decimal_chars[of "- i" "last (decimal (- i))"] True ne by simp
  then have t: "trim ?s = ?s"
    using ne by (intro trim_unchanged) simp_all
  obtain c cs where d: "decimal (- i) = c # cs"
    using ne by (cases "decimal (- i)") auto
  have "SignedInteger ?s = Some i"
    using digits_value_decimal[of "- i"] True ne
    by (simp add: SignedInteger_def digits_def)
  then have "StrIntegerLiteral ?s = Some i"
    using d by simp
  with t True show ?thesis
    by (simp add: StringToBigInt_def toString_def Let_def)
next
  case False
  then have n: "0 \<le> i" by simp
  have ne: "decimal i \<noteq> []" by (rule decimal_not_Nil)
  have "48 \<le> (of_char (hd (decimal i)) :: int) \<and> (of_char (hd (decimal i)) :: int) \<le> 57"
       "48 \<le> (of_char (last (decimal i)) :: int) \<and> (of_char (last (decimal i)) :: int) \<le> 57"
    using decimal_chars[OF n] ne by simp_all
  with ne have "trim (decimal i) = decimal i" by (intro trim_unchanged) simp_all
  with False ne StrIntegerLiteral_decimal[OF n] show ?thesis
    by (simp add: StringToBigInt_def toString_def Let_def)
qed

lemma BigInt_toString: "BigInt (toString i) = Inr i"
  by (simp add: BigInt_def StringToBigInt_toString)

section \<open>The account scan\<close>

text \<open>
  When every amount reads as a BigInt, the loop pushes one object for each account
  whose mint has a value in the directory, in the order of the accounts, and nothing
  else.
\<close>

lemma forEach_account_eq:
  "\<forall>a \<in> set accounts. \<exists>n. BigInt (tokenAmount a) = Inr n \<Longrightarrow>
   forEach_account tokenList accounts tokens =
     Inr (tokens @
          map (\<lambda>a. \<lparr>account = a, token = the (Get tokenList (mint a)),
                     balance = toString (projr (BigInt (tokenAmount a)))\<rparr>)
            (filter (\<lambda>a. Get tokenList (mint a) \<noteq> None) accounts))"
  by (induction accounts arbitrary: tokens) (auto split: option.splits sum.splits)

text \<open>
  A mint that is not listed and names a property of \<^verbatim>\<open>Object.prototype\<close> passes the
  test of line 102: the account is kept, with the inherited value for token. The amount
  here is hexadecimal text after a space, which \<^verbatim>\<open>BigInt\<close> reads.
\<close>

lemma forEach_account_inherited:
  "forEach_account directory_XY
     [\<lparr>pubkey = ''acc7'', mint = ''constructor'', tokenAmount = '' 0x10''\<rparr>] []
   = Inr [\<lparr>account = \<lparr>pubkey = ''acc7'', mint = ''constructor'', tokenAmount = '' 0x10''\<rparr>,
           token = Inherited ''constructor'', balance = ''16''\<rparr>]"
  by code_simp

text \<open>
  Claim C5. When both account queries answer, every fetched amount is an integer text
  and no fetched mint is a name the directory inherits without listing it,
  \<open>getTokenAccounts\<close> returns exactly one balance for each fetched account whose mint
  is a key of the directory, in the order fetched, and none for the others; each
  carries the directory's entry for its mint, and its balance, a decimal string and no
  floating-point number, reads back as exactly the integer the ledger sent.
\<close>

theorem getTokenAccounts_known_exact:
  assumes old: "getParsedProgramAccounts c TOKEN_PROGRAM_ID [DataSize 165, Memcmp 32 wallet]
                  = Inr accountsOld"
      and new: "getParsedProgramAccounts c TOKEN_2022_PROGRAM_ID [DataSize 182, Memcmp 32 wallet]
                  = Inr accountsNew"
      and amounts: "\<forall>a \<in> set (accountsOld @ accountsNew). \<exists>n. BigInt (tokenAmount a) = Inr n"
      and mints: "\<forall>a \<in> set (accountsOld @ accountsNew).
                    mint a \<in> set Object_prototype \<longrightarrow> mint a \<in> dom tokenList"
  shows "\<exists>tbs. getTokenAccounts wallet c tokenList = Inr tbs
           \<and> map account tbs
               = filter (\<lambda>a. mint a \<in> dom tokenList) (accountsOld @ accountsNew)
           \<and> (\<forall>tb \<in> set tbs.
                 map_option Listed (tokenList (mint (account tb))) = Some (token tb)
               \<and> BigInt (balance tb) = BigInt (tokenAmount (account tb)))"
proof -
  let ?accounts = "accountsOld @ accountsNew"
  let ?known = "filter (\<lambda>a. mint a \<in> dom tokenList) ?accounts"
  let ?push = "\<lambda>a. \<lparr>account = a, token = the (Get tokenList (mint a)),
                      balance = toString (projr (BigInt (tokenAmount a)))\<rparr>"
  let ?tbs = "map ?push ?known"
  have listed: "Get tokenList (mint a) \<noteq> None \<longleftrightarrow> mint a \<in> dom tokenList"
    if "a \<in> set ?accounts" for a
    using mints that by (auto simp: Get_def split: option.splits)
  then have "filter (\<lambda>a. Get tokenList (mint a) \<noteq> None) ?accounts = ?known"
    by (intro filter_cong) simp_all
  then have run: "getTokenAccounts wallet c tokenList = Inr ?tbs"
    using old new forEach_account_eq[OF amounts, of tokenList "[]"]
    by (simp add: getTokenAccounts_def)
  have accs: "map account ?tbs = ?known"
    by (simp add: comp_def)
  have each: "map_option Listed (tokenList (mint (account tb))) = Some (token tb)
            \<and> BigInt (balance tb) = BigInt (tokenAmount (account tb))"
    if "tb \<in> set ?tbs" for tb
  proof -
    from that obtain a where a: "a \<in> set ?accounts" "mint a \<in> dom tokenList"
      and tb: "tb = ?push a" by auto
    from amounts a(1) obtain n where "BigInt (tokenAmount a) = Inr n" by blast
    with a(2) tb show ?thesis
      by (auto simp: BigInt_toString Get_def)
  qed
  from run accs each show ?thesis by blast
qed

theorem getTokenAccounts_known_exact_witness:
  "\<exists>tbs. getTokenAccounts ''W'' ledger_XQY directory_XY = Inr tbs
     \<and> map account tbs =
         [\<lparr>pubkey = ''acc1'', mint = ''X'', tokenAmount = ''18446744073709551615''\<rparr>,
          \<lparr>pubkey = ''acc3'', mint = ''Y'', tokenAmount = ''0''\<rparr>]
     \<and> map token tbs = [Listed (token_info ''X''), Listed (token_info ''Y'')]
     \<and> map (\<lambda>tb. BigInt (balance tb)) tbs = [Inr 18446744073709551615, Inr 0]"
proof -
  let ?old = "[\<lparr>pubkey = ''acc1'', mint = ''X'', tokenAmount = ''18446744073709551615''\<rparr>,
               \<lparr>pubkey = ''acc2'', mint = ''Q'', tokenAmount = ''5''\<rparr>]"
  let ?new = "[\<lparr>pubkey = ''acc3'', mint = ''Y'', tokenAmount = ''0''\<rparr>]"
  have old: "getParsedProgramAccounts ledger_XQY TOKEN_PROGRAM_ID [DataSize 165, Memcmp 32 ''W'']
               = Inr ?old"
    by (simp add: ledger_XQY_def)
  have new: "getParsedProgramAccounts ledger_XQY TOKEN_2022_PROGRAM_ID
               [DataSize 182, Memcmp 32 ''W''] = Inr ?new"
    by (simp add: ledger_XQY_def TOKEN_PROGRAM_ID_def TOKEN_2022_PROGRAM_ID_def)
  have vals: "BigInt ''18446744073709551615'' = Inr 18446744073709551615"
    "BigInt ''5'' = Inr 5" "BigInt ''0'' = Inr 0"
    by code_simp+
  have amounts: "\<forall>a \<in> set (?old @ ?new). \<exists>n. BigInt (tokenAmount a) = Inr n"
    by (simp add: vals)
  have mints: "\<forall>a \<in> set (?old @ ?new).
                 mint a \<in> set Object_prototype \<longrightarrow> mint a \<in> dom directory_XY"
    by (simp add: Object_prototype_def)
  from getTokenAccounts_known_exact[OF old new amounts mints]
  obtain tbs where run: "getTokenAccounts ''W'' ledger_XQY directory_XY = Inr tbs"
    and accs: "map account tbs = filter (\<lambda>a. mint a \<in> dom directory_XY) (?old @ ?new)"
    and each: "\<forall>tb \<in> set tbs.
                  map_option Listed (directory_XY (mint (account tb))) = Some (token tb)
                \<and> BigInt (balance tb) = BigInt (tokenAmount (account tb))"
    by blast
  from accs have accs': "map account tbs = [?old ! 0, ?new ! 0]"
    by (simp add: directory_XY_def)
  from each have "\<forall>tb \<in> set tbs.
                    token tb = the (map_option Listed (directory_XY (mint (account tb))))"
    by (metis option.sel)
  then have "map token tbs
               = map (\<lambda>a. the (map_option Listed (directory_XY (mint a)))) (map account tbs)"
    by (simp add: comp_def)
  also have "\<dots> = [Listed (token_info ''X''), Listed (token_info ''Y'')]"
    unfolding accs' by (simp add: directory_XY_def)
  finally have toks: "map token tbs = [Listed (token_info ''X''), Listed (token_info ''Y'')]" .
  from each have "map (\<lambda>tb. BigInt (balance tb)) tbs
                    = map (\<lambda>a. BigInt (tokenAmount a)) (map account tbs)"
    by (simp add: comp_def)
  also have "\<dots> = [Inr 18446744073709551615, Inr 0]"
    unfolding accs' by (simp add: vals)
  finally show ?thesis using run accs' toks by auto
qed

section \<open>The quote pipeline\<close>

lemma first_rejection_Inr:
  "first_rejection (map (\<lambda>(i, a). Inr (f i a)) (enumerate n xs)) = None"
  by (induction xs arbitrary: n) simp_all

lemma findQuotes_scanned:
  assumes "getTokenAccounts walletAddress connection tokens = Inr assets"
  shows "findQuotes sched connection tokens outMint walletAddress quoteApi =
           resume ([0..<length assets] @ sched)
             (map (\<lambda>(i, b). (Branch i, segments b))
                (enumerate 0 (map (\<lambda>(i, a). Inr (quote_body quoteApi outMint walletAddress i a))
                                (enumerate 0 assets))))
           @ [(Main, Settled Resolves)]"
  using assms by (simp add: findQuotes_def Promise_all_def first_rejection_Inr)

lemma findQuotes_branch:
  assumes "getTokenAccounts walletAddress connection tokens = Inr assets"
      and "i < length assets"
  shows "by_actor (Branch i) (findQuotes sched connection tokens outMint walletAddress quoteApi)
           = concat (quote_body quoteApi outMint walletAddress i (assets ! i))"
proof -
  let ?bodies = "map (\<lambda>(i, a). Inr (quote_body quoteApi outMint walletAddress i a)) (enumerate 0 assets)"
  have "by_actor (Branch i) (Promise_all sched ?bodies [Settled Resolves]
           (\<lambda>error. [ConsoleError error, Settled Resolves])) = concat (segments (?bodies ! i))"
    using assms(2) by (intro Promise_all_branch) simp
  with assms show ?thesis
    by (simp add: findQuotes_def nth_enumerate_eq)
qed

lemma quote_body_events:
  "concat (quote_body quoteApi outMint walletAddress i a) =
     (let k = token_address (token a);
          rq = \<lparr>inputMint = k, outputMint = outMint, amount = Number (balance a)\<rparr>
      in [FoundAssetCallback k a, QuoteGetCall rq] @
         (case quoteGet quoteApi i rq of
            Inl e \<Rightarrow> [ErrorCallback k (Message ''Couldn't get quote'')]
          | Inr q \<Rightarrow>
              [FoundQuoteCallback k q,
               SwapPostCall \<lparr>userPublicKey = walletAddress, quoteResponse = q\<rparr>] @
              (case swapPost quoteApi i \<lparr>userPublicKey = walletAddress, quoteResponse = q\<rparr> of
                 Inl e \<Rightarrow> [ErrorCallback k (Message ''Couldn't get swap transaction'')]
               | Inr sw \<Rightarrow> [FoundSwapCallback k sw])))"
  by (simp add: quote_body_def Let_def split: sum.splits)

lemma quote_body_callback_id:
  "e \<in> set (concat (quote_body quoteApi outMint walletAddress i a)) \<Longrightarrow>
   (callback_id e = None \<or> callback_id e = Some (token_address (token a))) \<and> \<not> is_settled e"
  by (auto simp: quote_body_events Let_def split: sum.splits)

lemma findQuotes_origin:
  assumes scan: "getTokenAccounts walletAddress connection tokens = Inr assets"
      and x: "x \<in> set (findQuotes sched connection tokens outMint walletAddress quoteApi)"
  shows "(\<exists>i < length assets. fst x = Branch i
            \<and> snd x \<in> set (concat (quote_body quoteApi outMint walletAddress i (assets ! i))))
       \<or> x = (Main, Settled Resolves)"
proof -
  let ?bodies = "map (\<lambda>(i, a). Inr (quote_body quoteApi outMint walletAddress i a)) (enumerate 0 assets)"
  from x scan have "x \<in> set (Promise_all sched ?bodies [Settled Resolves]
           (\<lambda>error. [ConsoleError error, Settled Resolves]))"
    by (simp add: findQuotes_def)
  from Promise_all_origin[OF this] show ?thesis
    by (auto simp: first_rejection_Inr nth_enumerate_eq prod_eq_iff)
qed

text \<open>
  Claim C1, as amended. For every asset of the scan, the events of its own run of the
  arrow function are, in this order: \<open>foundAssetCallback\<close> and the quote request; then
  either \<open>errorCallback\<close> with the quote message and nothing more (no swap request, no
  \<open>foundSwapCallback\<close>), or \<open>foundQuoteCallback\<close> and the swap request followed by
  \<open>foundSwapCallback\<close> or by \<open>errorCallback\<close> with the swap message. When no other
  asset of the scan has the same token address, these are also all the callbacks made
  with that id, in that order.
\<close>

theorem findQuotes_branch_order:
  assumes scan: "getTokenAccounts walletAddress connection tokens = Inr assets"
      and i: "i < length assets"
  shows
    "let a = assets ! i;
         k = token_address (token a);
         rq = \<lparr>inputMint = k, outputMint = outMint, amount = Number (balance a)\<rparr>;
         tr = findQuotes sched connection tokens outMint walletAddress quoteApi;
         own = by_actor (Branch i) tr
     in (\<forall>e. quoteGet quoteApi i rq = Inl e \<longrightarrow>
           own = [FoundAssetCallback k a, QuoteGetCall rq,
                  ErrorCallback k (Message ''Couldn't get quote'')])
      \<and> (\<forall>q e. quoteGet quoteApi i rq = Inr q
              \<and> swapPost quoteApi i \<lparr>userPublicKey = walletAddress, quoteResponse = q\<rparr> = Inl e \<longrightarrow>
           own = [FoundAssetCallback k a, QuoteGetCall rq, FoundQuoteCallback k q,
                  SwapPostCall \<lparr>userPublicKey = walletAddress, quoteResponse = q\<rparr>,
                  ErrorCallback k (Message ''Couldn't get swap transaction'')])
      \<and> (\<forall>q sw. quoteGet quoteApi i rq = Inr q
              \<and> swapPost quoteApi i \<lparr>userPublicKey = walletAddress, quoteResponse = q\<rparr> = Inr sw \<longrightarrow>
           own = [FoundAssetCallback k a, QuoteGetCall rq, FoundQuoteCallback k q,
                  SwapPostCall \<lparr>userPublicKey = walletAddress, quoteResponse = q\<rparr>,
                  FoundSwapCallback k sw])
      \<and> ((\<forall>j < length assets. j \<noteq> i \<longrightarrow> token_address (token (assets ! j)) \<noteq> k) \<longrightarrow>
           callbacks_for k tr = filter (\<lambda>e. callback_id e \<noteq> None) own)"
proof -
  let ?a = "assets ! i"
  let ?k = "token_address (token ?a)"
  let ?tr = "findQuotes sched connection tokens outMint walletAddress quoteApi"
  have own: "by_actor (Branch i) ?tr = concat (quote_body quoteApi outMint walletAddress i ?a)"
    using scan i by (rule findQuotes_branch)
  have unique: "callbacks_for ?k ?tr = filter (\<lambda>e. callback_id e \<noteq> None) (by_actor (Branch i) ?tr)"
    if others: "\<forall>j < length assets. j \<noteq> i \<longrightarrow> token_address (token (assets ! j)) \<noteq> ?k"
  proof -
    have owner: "fst x = Branch i" if "x \<in> set ?tr" "callback_id (snd x) = Some ?k" for x
    proof -
      from findQuotes_origin[OF scan that(1)] that(2)
      obtain j where j: "j < length assets" "fst x = Branch j"
        "snd x \<in> set (concat (quote_body quoteApi outMint walletAddress j (assets ! j)))"
        by auto
      from quote_body_callback_id[OF j(3)] that(2)
      have "token_address (token (assets ! j)) = ?k" by auto
      with others j(1) have "j = i" by blast
      with j(2) show ?thesis by simp
    qed
    have "callbacks_for ?k ?tr = filter (\<lambda>e. callback_id e = Some ?k) (by_actor (Branch i) ?tr)"
      unfolding callbacks_for_def using owner by (rule filter_by_owner)
    also have "\<dots> = filter (\<lambda>e. callback_id e \<noteq> None) (by_actor (Branch i) ?tr)"
      unfolding own
      by (rule filter_cong[OF refl]) (use quote_body_callback_id in fastforce)
    finally show ?thesis .
  qed
  show ?thesis
    unfolding Let_def
    using unique by (auto simp: own quote_body_events Let_def)
qed

theorem findQuotes_branch_order_witness:
  "getTokenAccounts ''W'' ledger_XQY directory_XY = Inr [balance_X, balance_Y]
   \<and> quoteGet aggregator_first_fails 0
        \<lparr>inputMint = Some ''X'', outputMint = ''SOL'', amount = Finite 18446744073709551616\<rparr>
       = Inl (Failure ''429'')
   \<and> by_actor (Branch 0)
        (findQuotes [1, 0, 1] ledger_XQY directory_XY ''SOL'' ''W'' aggregator_first_fails)
       = [FoundAssetCallback (Some ''X'') balance_X,
          QuoteGetCall \<lparr>inputMint = Some ''X'', outputMint = ''SOL'', amount = Finite 18446744073709551616\<rparr>,
          ErrorCallback (Some ''X'') (Message ''Couldn't get quote'')]
   \<and> callbacks_for (Some ''X'')
        (findQuotes [1, 0, 1] ledger_XQY directory_XY ''SOL'' ''W'' aggregator_first_fails)
       = [FoundAssetCallback (Some ''X'') balance_X, ErrorCallback (Some ''X'') (Message ''Couldn't get quote'')]"
proof -
  have scan: "getTokenAccounts ''W'' ledger_XQY directory_XY = Inr [balance_X, balance_Y]"
    by code_simp
  have i: "0 < length [balance_X, balance_Y]" by simp
  have k: "token_address (token balance_X) = Some ''X''" "token_address (token balance_Y) = Some ''Y''"
    by code_simp+
  have n: "Number (balance balance_X) = Finite 18446744073709551616" by code_simp
  have q: "quoteGet aggregator_first_fails 0
        \<lparr>inputMint = Some ''X'', outputMint = ''SOL'', amount = Finite 18446744073709551616\<rparr>
       = Inl (Failure ''429'')" by code_simp
  have others: "\<forall>j < length [balance_X, balance_Y]. j \<noteq> 0 \<longrightarrow>
                  token_address (token ([balance_X, balance_Y] ! j)) \<noteq> Some ''X''"
    by (simp add: k less_Suc_eq)
  from findQuotes_branch_order[OF scan i, of "''SOL''" "[1, 0, 1]" aggregator_first_fails]
  show ?thesis using scan q others by (simp add: Let_def k n)
qed

text \<open>
  Claim C1 as stated speaks of the callbacks made with the asset's id. Two accounts of
  one mint give two assets with one id: the quote request of the first fails, and
  \<open>foundSwapCallback\<close> is still called with that id, for the second.
\<close>

theorem findQuotes_same_mint_counterexample:
  "getTokenAccounts ''W'' ledger_MM directory_M = Inr [balance_M5, balance_M7]
   \<and> quoteGet aggregator_first_fails 0
        \<lparr>inputMint = Some ''M'', outputMint = ''SOL'', amount = Number (balance balance_M5)\<rparr>
       = Inl (Failure ''429'')
   \<and> callbacks_for (Some ''M'')
        (findQuotes [] ledger_MM directory_M ''SOL'' ''W'' aggregator_first_fails)
       = [FoundAssetCallback (Some ''M'') balance_M5,
          FoundAssetCallback (Some ''M'') balance_M7,
          ErrorCallback (Some ''M'') (Message ''Couldn't get quote''),
          FoundQuoteCallback (Some ''M'')
            (quote_of \<lparr>inputMint = Some ''M'', outputMint = ''SOL'', amount = Finite 7\<rparr>),
          FoundSwapCallback (Some ''M'') swap_AQID]"
  by code_simp

text \<open>
  Claim C4. Whatever the schedule and whatever the aggregator answers to the other
  assets, the run of the arrow function on asset \<open>i\<close> is complete in the trace: its
  events are those of its own body, which depend on nothing but the asset and the
  answers to its own two requests. So \<open>foundAssetCallback\<close> fires for it, and so does
  \<open>foundQuoteCallback\<close> when its quote request succeeds and \<open>foundSwapCallback\<close> when
  its swap request succeeds as well.
\<close>

theorem findQuotes_isolation:
  assumes scan: "getTokenAccounts walletAddress connection tokens = Inr assets"
      and i: "i < length assets"
  shows
    "let a = assets ! i;
         k = token_address (token a);
         rq = \<lparr>inputMint = k, outputMint = outMint, amount = Number (balance a)\<rparr>;
         tr = findQuotes sched connection tokens outMint walletAddress quoteApi
     in by_actor (Branch i) tr = concat (quote_body quoteApi outMint walletAddress i a)
      \<and> FoundAssetCallback k a \<in> set (callbacks tr)
      \<and> (\<forall>q. quoteGet quoteApi i rq = Inr q \<longrightarrow>
             FoundQuoteCallback k q \<in> set (callbacks tr)
           \<and> (\<forall>sw. swapPost quoteApi i \<lparr>userPublicKey = walletAddress, quoteResponse = q\<rparr>
                       = Inr sw \<longrightarrow>
                  FoundSwapCallback k sw \<in> set (callbacks tr)))"
proof -
  let ?a = "assets ! i"
  let ?tr = "findQuotes sched connection tokens outMint walletAddress quoteApi"
  have own: "by_actor (Branch i) ?tr = concat (quote_body quoteApi outMint walletAddress i ?a)"
    using scan i by (rule findQuotes_branch)
  have made: "e \<in> set (callbacks ?tr)"
    if "e \<in> set (concat (quote_body quoteApi outMint walletAddress i ?a))"
       "callback_id e \<noteq> None" for e
  proof -
    from that(1) have "e \<in> set (map snd ?tr)"
      unfolding own[symmetric] by (rule by_actor_subset)
    with that(2) show ?thesis by (simp add: callbacks_def)
  qed
  show ?thesis
    unfolding Let_def
  proof (intro conjI allI impI)
    show "by_actor (Branch i) ?tr = concat (quote_body quoteApi outMint walletAddress i ?a)"
      by (rule own)
  qed (rule made; simp add: quote_body_events Let_def)+
qed

theorem findQuotes_isolation_witness:
  "getTokenAccounts ''W'' ledger_XQY directory_XY = Inr [balance_X, balance_Y]
   \<and> ErrorCallback (Some ''X'') (Message ''Couldn't get quote'')
       \<in> set (callbacks (findQuotes [0, 0] ledger_XQY directory_XY ''SOL'' ''W'' aggregator_first_fails))
   \<and> FoundAssetCallback (Some ''Y'') balance_Y
       \<in> set (callbacks (findQuotes [0, 0] ledger_XQY directory_XY ''SOL'' ''W'' aggregator_first_fails))
   \<and> FoundQuoteCallback (Some ''Y'') (quote_of \<lparr>inputMint = Some ''Y'', outputMint = ''SOL'', amount = Finite 0\<rparr>)
       \<in> set (callbacks (findQuotes [0, 0] ledger_XQY directory_XY ''SOL'' ''W'' aggregator_first_fails))
   \<and> FoundSwapCallback (Some ''Y'') swap_AQID
       \<in> set (callbacks (findQuotes [0, 0] ledger_XQY directory_XY ''SOL'' ''W'' aggregator_first_fails))"
proof -
  have scan: "getTokenAccounts ''W'' ledger_XQY directory_XY = Inr [balance_X, balance_Y]"
    by code_simp
  have i: "1 < length [balance_X, balance_Y]" by simp
  have k: "token_address (token balance_Y) = Some ''Y''" by code_simp
  have n: "Number (balance balance_Y) = Finite 0" by code_simp
  have q: "quoteGet aggregator_first_fails (Suc 0) rq = Inr (quote_of rq)" for rq
    by (simp add: aggregator_first_fails_def)
  have s: "swapPost aggregator_first_fails (Suc 0) rq = Inr swap_AQID" for rq
    by (simp add: aggregator_first_fails_def)
  have sibling: "ErrorCallback (Some ''X'') (Message ''Couldn't get quote'')
       \<in> set (callbacks (findQuotes [0, 0] ledger_XQY directory_XY ''SOL'' ''W'' aggregator_first_fails))"
    by code_simp
  from findQuotes_isolation[OF scan i, of "''SOL''" "[0, 0]" aggregator_first_fails]
  show ?thesis using scan sibling by (simp add: Let_def k n q s)
qed

text \<open>
  Claim C7. The promise of \<open>findQuotes\<close> settles once, by resolving, and that is the
  last event of the run: every asset's run of the arrow function is complete before
  it. When the scan fails, the error goes to \<^verbatim>\<open>console.error\<close> and nothing else
  happens before the promise resolves; a scan that finds nothing does nothing at all
  before it resolves. No callback is made in either case.
\<close>

theorem findQuotes_always_resolves:
  "\<exists>pre. findQuotes sched connection tokens outMint walletAddress quoteApi
            = pre @ [(Main, Settled Resolves)]
     \<and> filter is_settled (map snd pre) = []
     \<and> (case getTokenAccounts walletAddress connection tokens of
          Inl error \<Rightarrow> pre = [(Main, ConsoleError error)]
        | Inr assets \<Rightarrow>
            (\<forall>i < length assets.
               by_actor (Branch i) pre
                 = concat (quote_body quoteApi outMint walletAddress i (assets ! i)))
          \<and> (assets = [] \<longrightarrow> pre = []))
     \<and> ((\<exists>error. getTokenAccounts walletAddress connection tokens = Inl error)
          \<or> getTokenAccounts walletAddress connection tokens = Inr [] \<longrightarrow>
        callbacks (findQuotes sched connection tokens outMint walletAddress quoteApi) = [])"
proof (cases "getTokenAccounts walletAddress connection tokens")
  case (Inl error)
  then show ?thesis by (simp add: findQuotes_def callbacks_def)
next
  case (Inr assets)
  let ?tr = "findQuotes sched connection tokens outMint walletAddress quoteApi"
  let ?bodies = "map (\<lambda>(i, a). Inr (quote_body quoteApi outMint walletAddress i a))
                   (enumerate 0 assets)"
  let ?pre = "resume ([0..<length assets] @ sched)
                (map (\<lambda>(i, b). (Branch i, segments b)) (enumerate 0 ?bodies))"
  have tr: "?tr = ?pre @ [(Main, Settled Resolves)]"
    using Inr by (rule findQuotes_scanned)
  have unsettled: "\<not> is_settled (snd x)" if "x \<in> set ?pre" for x
  proof -
    from resume_origin[OF that] obtain segs where
      s: "(fst x, segs) \<in> set (map (\<lambda>(i, b). (Branch i, segments b)) (enumerate 0 ?bodies))"
         "snd x \<in> set (concat segs)" by blast
    from pending_cases[OF s(1)] obtain i where
      "i < length assets" "segs = segments (?bodies ! i)" by auto
    with s(2) have "snd x \<in> set (concat (quote_body quoteApi outMint walletAddress i (assets ! i)))"
      by (simp add: nth_enumerate_eq)
    then show ?thesis using quote_body_callback_id by blast
  qed
  have none: "filter is_settled (map snd ?pre) = []"
    using unsettled by (simp add: filter_empty_conv)
  have own: "by_actor (Branch i) ?pre
               = concat (quote_body quoteApi outMint walletAddress i (assets ! i))"
    if "i < length assets" for i
    using findQuotes_branch[OF Inr that, of sched outMint quoteApi]
    by (simp add: tr by_actor_def)
  have empty: "?pre = []" if "assets = []"
    using that by (simp add: resume_Nil)
  have silent: "callbacks ?tr = []" if "assets = []"
    using tr empty[OF that] by (simp add: callbacks_def)
  from tr none own empty silent Inr show ?thesis by auto
qed

theorem findQuotes_always_resolves_witness:
  "getTokenAccounts ''W'' ledger_down directory_XY = Inl (Failure ''ECONNREFUSED'')
   \<and> findQuotes [] ledger_down directory_XY ''SOL'' ''W'' aggregator_first_fails
       = [(Main, ConsoleError (Failure ''ECONNREFUSED'')), (Main, Settled Resolves)]
   \<and> callbacks (findQuotes [] ledger_down directory_XY ''SOL'' ''W'' aggregator_first_fails) = []"
proof -
  have scan: "getTokenAccounts ''W'' ledger_down directory_XY = Inl (Failure ''ECONNREFUSED'')"
    by code_simp
  from findQuotes_always_resolves[of "[]" ledger_down directory_XY "''SOL''" "''W''"
      aggregator_first_fails]
  show ?thesis by (auto simp: scan callbacks_def)
qed

section \<open>The sweep\<close>

text \<open>
  What the assembling loop leaves behind when the wallet has a public key and every
  approved payload decodes.
\<close>

lemma forEach_asset_eq:
  assumes "publicKey wallet = Some pk"
      and "forEach_asset rt wallet blockHash assets st = Inr st'"
  shows "transactions st' =
           transactions st @
           map (\<lambda>a. (token_address (token (asset a)), projr (decode_swap rt (the (swap a)))))
             (filter (\<lambda>a. checked a = Some True \<and> swap a \<noteq> None) assets)
       \<and> dropped st' =
           dropped st @
           map (\<lambda>a. closeAccountTx pk blockHash)
             (filter (\<lambda>a. checked a = Some True
                          \<and> (swap a \<noteq> None \<or> balance_is_0n (balance (asset a)))) assets)
       \<and> (\<forall>a \<in> set assets. checked a = Some True \<and> swap a \<noteq> None \<longrightarrow>
             (\<exists>t. decode_swap rt (the (swap a)) = Inr t))"
  using assms(2)
proof (induction assets arbitrary: st)
  case Nil
  then show ?case by simp
next
  case (Cons a assets)
  from Cons.prems obtain st1 where
    step: "sweep_asset rt wallet blockHash st a = Inr st1"
    and rest: "forEach_asset rt wallet blockHash assets st1 = Inr st'"
    by (auto split: sum.splits)
  note IH = Cons.IH[OF rest]
  show ?case
  proof (cases "checked a = Some True")
    case False
    with step have "st1 = st" by (simp add: sweep_asset_def)
    with IH False show ?thesis by simp
  next
    case approved: True
    show ?thesis
    proof (cases "swap a")
      case None
      with step approved assms(1) have
        "st1 = (if balance_is_0n (balance (asset a))
                then st\<lparr>dropped := dropped st @ [closeAccountTx pk blockHash]\<rparr> else st)"
        by (auto simp: sweep_asset_def Let_def)
      with IH approved None show ?thesis by simp
    next
      case (Some sw)
      with step approved assms(1) obtain t where
        t: "decode_swap rt sw = Inr t"
        and st1: "st1 = st\<lparr>dropped := dropped st @ [closeAccountTx pk blockHash],
                          transactions := transactions st @ [(token_address (token (asset a)), t)]\<rparr>"
        by (auto simp: sweep_asset_def Let_def split: sum.splits)
      with IH approved Some show ?thesis by simp
    qed
  qed
qed

lemma submit_body_events:
  "i < length txs \<Longrightarrow>
   concat (segments (submit_body connection txs i t)) =
     [TransactionStateCallback (fst (txs ! i)) ''Scooping'', SendAndConfirmCall t] @
     (case sendAndConfirmRawTransaction connection i t of
        Inr result \<Rightarrow> [TransactionStateCallback (fst (txs ! i)) ''Scooped'']
      | Inl err \<Rightarrow> [TransactionStateCallback (fst (txs ! i)) ''Error'',
                    ErrorCallback (fst (txs ! i)) (Caught err)])"
  by (simp add: submit_body_def Let_def split: sum.splits)

lemma submit_body_throws:
  "\<not> i < length txs \<Longrightarrow> segments (submit_body connection txs i t) = []"
  by (simp add: submit_body_def)

lemma submit_body_event_cases:
  assumes "e \<in> set (concat (segments (submit_body connection txs i t)))"
  shows "i < length txs \<and>
         ((\<exists>s. e = TransactionStateCallback (fst (txs ! i)) s)
          \<or> e = SendAndConfirmCall t
          \<or> (\<exists>err. e = ErrorCallback (fst (txs ! i)) (Caught err)))"
proof (cases "i < length txs")
  case True
  from assms show ?thesis
    unfolding submit_body_events[OF True]
    using True by (auto split: sum.splits)
next
  case False
  with assms show ?thesis by (simp add: submit_body_throws)
qed

text \<open>The five ways a sweep can go.\<close>

lemma sweepTokens_cases:
  fixes rt sched wallet connection assets
  defines "tr \<equiv> sweepTokens rt sched wallet connection assets"
  obtains
    (fetch_failed) e where
      "getLatestBlockhash connection = Inl e"
      "tr = [(Main, GetLatestBlockhashCall), (Main, Settled (Rejects e))]"
  | (decode_failed) blockHash e where
      "getLatestBlockhash connection = Inr blockHash"
      "forEach_asset rt wallet blockHash assets \<lparr>transactions = [], dropped = []\<rparr> = Inl e"
      "tr = [(Main, GetLatestBlockhashCall), (Main, Settled (Rejects e))]"
  | (no_signAll) blockHash st where
      "getLatestBlockhash connection = Inr blockHash"
      "forEach_asset rt wallet blockHash assets \<lparr>transactions = [], dropped = []\<rparr> = Inr st"
      "signAllTransactions wallet = None"
      "tr = [(Main, GetLatestBlockhashCall), (Main, Settled Resolves)]"
  | (signing_failed) blockHash st sign error where
      "getLatestBlockhash connection = Inr blockHash"
      "forEach_asset rt wallet blockHash assets \<lparr>transactions = [], dropped = []\<rparr> = Inr st"
      "signAllTransactions wallet = Some sign"
      "sign (map snd (transactions st)) = Inl error"
      "tr = [(Main, GetLatestBlockhashCall),
             (Main, SignAllTransactionsCall (map snd (transactions st))),
             (Main, ConsoleError error),
             (Main, ErrorCallback (Some '''') (Message ''Failed signing transactions!'')),
             (Main, Settled Resolves)]"
  | (submitting) blockHash st sign signed where
      "getLatestBlockhash connection = Inr blockHash"
      "forEach_asset rt wallet blockHash assets \<lparr>transactions = [], dropped = []\<rparr> = Inr st"
      "signAllTransactions wallet = Some sign"
      "sign (map snd (transactions st)) = Inr signed"
      "tr = (Main, GetLatestBlockhashCall) #
            (Main, SignAllTransactionsCall (map snd (transactions st))) #
            Promise_all sched
              (map (\<lambda>(i, t). submit_body connection (transactions st) i t) (enumerate 0 signed))
              [Settled Resolves] signing_failed"
proof (cases "getLatestBlockhash connection")
  case (Inl e)
  then show ?thesis using fetch_failed by (simp add: tr_def sweepTokens_def)
next
  case fetch: (Inr blockHash)
  show ?thesis
  proof (cases "forEach_asset rt wallet blockHash assets \<lparr>transactions = [], dropped = []\<rparr>")
    case (Inl e)
    with fetch show ?thesis using decode_failed by (simp add: tr_def sweepTokens_def)
  next
    case built: (Inr st)
    show ?thesis
    proof (cases "signAllTransactions wallet")
      case None
      with fetch built show ?thesis using no_signAll by (simp add: tr_def sweepTokens_def)
    next
      case wallet: (Some sign)
      show ?thesis
      proof (cases "sign (map snd (transactions st))")
        case (Inl error)
        with fetch built wallet show ?thesis
          using signing_failed by (simp add: tr_def sweepTokens_def signing_failed_def)
      next
        case (Inr signed)
        with fetch built wallet show ?thesis
          using submitting by (simp add: tr_def sweepTokens_def)
      qed
    qed
  qed
qed

text \<open>Where an event of the submission phase comes from, and what it can be.\<close>

lemma submit_origin:
  assumes "x \<in> set (Promise_all sched
              (map (\<lambda>(i, t). submit_body connection txs i t) (enumerate 0 signed))
              [Settled Resolves] signing_failed)"
  shows "(\<exists>i. i < length signed \<and> i < length txs \<and> fst x = Branch i
              \<and> ((\<exists>s. snd x = TransactionStateCallback (fst (txs ! i)) s)
                 \<or> snd x = SendAndConfirmCall (signed ! i)
                 \<or> (\<exists>err. snd x = ErrorCallback (fst (txs ! i)) (Caught err))))
       \<or> (fst x = Main \<and> (snd x = Settled Resolves \<or> (\<exists>e. snd x = ConsoleError e)
              \<or> snd x = ErrorCallback (Some '''') (Message ''Failed signing transactions!'')))"
proof -
  let ?bodies = "map (\<lambda>(i, t). submit_body connection txs i t) (enumerate 0 signed)"
  from Promise_all_origin[OF assms]
  consider i where "i < length ?bodies" "fst x = Branch i"
      "snd x \<in> set (concat (segments (?bodies ! i)))"
    | "fst x = Main"
      "snd x \<in> set (case first_rejection ?bodies of None \<Rightarrow> [Settled Resolves]
                      | Some e \<Rightarrow> signing_failed e)"
    by blast
  then show ?thesis
  proof cases
    case 1
    then have i: "i < length signed"
      and ev: "snd x \<in> set (concat (segments (submit_body connection txs i (signed ! i))))"
      by (simp_all add: nth_enumerate_eq)
    from submit_body_event_cases[OF ev] i 1(2) show ?thesis by blast
  next
    case 2
    then show ?thesis
      by (auto simp: signing_failed_def split: option.splits)
  qed
qed

lemma sweepTokens_branch:
  assumes fetch: "getLatestBlockhash connection = Inr blockHash"
      and built: "forEach_asset rt wallet blockHash assets \<lparr>transactions = [], dropped = []\<rparr>
                    = Inr st"
      and wallet: "signAllTransactions wallet = Some sign"
      and signed: "sign (map snd (transactions st)) = Inr signed"
      and i: "i < length signed"
  shows "by_actor (Branch i) (sweepTokens rt sched wallet connection assets)
           = concat (segments (submit_body connection (transactions st) i (signed ! i)))"
proof -
  let ?bodies = "map (\<lambda>(i, t). submit_body connection (transactions st) i t)
                   (enumerate 0 signed)"
  have "by_actor (Branch i) (Promise_all sched ?bodies [Settled Resolves] signing_failed)
          = concat (segments (?bodies ! i))"
    using i by (intro Promise_all_branch) simp
  with assms show ?thesis
    by (simp add: sweepTokens_def by_actor_def nth_enumerate_eq)
qed

lemma states_for_by_owner:
  assumes "\<And>x. x \<in> set tr \<Longrightarrow> state_for k (snd x) \<noteq> None \<Longrightarrow> fst x = who"
  shows "states_for k tr = List.map_filter (state_for k) (by_actor who tr)"
proof -
  have "filter (\<lambda>e. state_for k e \<noteq> None) (map snd tr)
          = filter (\<lambda>e. state_for k e \<noteq> None) (by_actor who tr)"
    using assms by (rule filter_by_owner)
  then show ?thesis
    by (simp add: states_for_def List.map_filter_def)
qed



text \<open>
  Without a public key the loop does nothing. With one, it ends at the first approved
  asset whose swap payload does not decode, with the failure of that payload.
\<close>

lemma forEach_asset_no_key:
  "publicKey wallet = None \<Longrightarrow> forEach_asset rt wallet blockHash assets st = Inr st"
  by (induction assets) (simp_all add: sweep_asset_def)

lemma sweep_asset_failure:
  assumes "publicKey wallet = Some pk"
  shows "case decode_failure rt a of
           Some e \<Rightarrow> sweep_asset rt wallet blockHash st a = Inl e
         | None \<Rightarrow> (\<exists>st'. sweep_asset rt wallet blockHash st a = Inr st')"
  using assms
  by (auto simp: sweep_asset_def decode_failure_def Let_def split: option.splits sum.splits)

lemma decode_failures_Cons:
  "decode_failures rt (a # assets) =
     (case decode_failure rt a of
        None \<Rightarrow> decode_failures rt assets
      | Some e \<Rightarrow> e # decode_failures rt assets)"
  by (simp add: decode_failures_def List.map_filter_def split: option.splits)

lemma forEach_asset_failure:
  assumes "publicKey wallet = Some pk"
  shows "case decode_failures rt assets of
           [] \<Rightarrow> (\<exists>st'. forEach_asset rt wallet blockHash assets st = Inr st')
         | e # es \<Rightarrow> forEach_asset rt wallet blockHash assets st = Inl e"
proof (induction assets arbitrary: st)
  case Nil
  show ?case by (simp add: decode_failures_def List.map_filter_def)
next
  case (Cons a assets)
  show ?case
  proof (cases "decode_failure rt a")
    case (Some e)
    with sweep_asset_failure[OF assms, where rt=rt and a=a and blockHash=blockHash and st=st]
    show ?thesis
      by (simp add: decode_failures_Cons)
  next
    case None
    with sweep_asset_failure[OF assms, where rt=rt and a=a and blockHash=blockHash and st=st]
    obtain st1 where
      "sweep_asset rt wallet blockHash st a = Inr st1" by auto
    with Cons.IH[of st1] None show ?thesis
      by (auto simp: decode_failures_Cons split: list.splits)
  qed
qed

lemma decode_failures_Nil:
  "decode_failures rt assets = [] \<longleftrightarrow>
     (\<forall>a \<in> set assets. checked a = Some True \<longrightarrow>
        (\<forall>sw. swap a = Some sw \<longrightarrow> (\<exists>t. decode_swap rt sw = Inr t)))"
proof (induction assets)
  case Nil
  show ?case by (simp add: decode_failures_def List.map_filter_def)
next
  case (Cons a assets)
  have "decode_failure rt a = None \<longleftrightarrow>
          (checked a = Some True \<longrightarrow>
             (\<forall>sw. swap a = Some sw \<longrightarrow> (\<exists>t. decode_swap rt sw = Inr t)))"
    by (auto simp: decode_failure_def split: option.splits sum.splits)
  with Cons show ?case
    by (auto simp: decode_failures_Cons split: option.splits)
qed






text \<open>
  Claim C2. When the wallet is asked to sign the batch and the request fails, the run is
  exactly: the fetch of the block reference, the signing request, the report on the
  console, one \<open>errorCallback\<close> with the empty id, and the resolution of the promise.
  So nothing is submitted, no state callback is made, \<open>errorCallback\<close> is the only
  callback and is called once, and the promise resolves.
\<close>

theorem sweepTokens_signing_failure:
  assumes wallet: "signAllTransactions wallet = Some sign"
      and called: "(Main, SignAllTransactionsCall txs)
                     \<in> set (sweepTokens rt sched wallet connection assets)"
      and failed: "sign txs = Inl error"
  shows "sweepTokens rt sched wallet connection assets =
           [(Main, GetLatestBlockhashCall),
            (Main, SignAllTransactionsCall txs),
            (Main, ConsoleError error),
            (Main, ErrorCallback (Some '''') (Message ''Failed signing transactions!'')),
            (Main, Settled Resolves)]
       \<and> filter is_submission (map snd (sweepTokens rt sched wallet connection assets)) = []
       \<and> callbacks (sweepTokens rt sched wallet connection assets)
           = [ErrorCallback (Some '''') (Message ''Failed signing transactions!'')]"
proof (cases rule: sweepTokens_cases[where rt=rt and sched=sched and wallet=wallet
          and connection=connection and assets=assets])
  case (fetch_failed e)
  with called show ?thesis by simp
next
  case (decode_failed blockHash e)
  with called show ?thesis by simp
next
  case (no_signAll blockHash st)
  with called show ?thesis by simp
next
  case (signing_failed blockHash st sign' error')
  with called have "txs = map snd (transactions st)" by simp
  with signing_failed wallet failed show ?thesis by (simp add: callbacks_def)
next
  case (submitting blockHash st sign' signed)
  have "snd x \<noteq> SignAllTransactionsCall txs"
    if "x \<in> set (Promise_all sched
              (map (\<lambda>(i, t). submit_body connection (transactions st) i t) (enumerate 0 signed))
              [Settled Resolves] signing_failed)" for x
    using submit_origin[OF that] by auto
  then have "(Main, SignAllTransactionsCall txs)
               \<notin> set (Promise_all sched
                  (map (\<lambda>(i, t). submit_body connection (transactions st) i t)
                     (enumerate 0 signed))
                  [Settled Resolves] signing_failed)"
    by force
  with called submitting(5) have "txs = map snd (transactions st)"
    by simp
  with submitting wallet failed show ?thesis by simp
qed

theorem sweepTokens_signing_failure_witness:
  "(Main, SignAllTransactionsCall [swap_tx_H0, swap_tx_H0])
     \<in> set (sweepTokens runtime_AQID [1, 0] wallet_refusing ledger_second_fails
              [asset_X, asset_Y, asset_Z])
   \<and> sweepTokens runtime_AQID [1, 0] wallet_refusing ledger_second_fails
        [asset_X, asset_Y, asset_Z]
       = [(Main, GetLatestBlockhashCall),
          (Main, SignAllTransactionsCall [swap_tx_H0, swap_tx_H0]),
          (Main, ConsoleError (Failure ''User rejected the request'')),
          (Main, ErrorCallback (Some '''') (Message ''Failed signing transactions!'')),
          (Main, Settled Resolves)]
   \<and> callbacks (sweepTokens runtime_AQID [1, 0] wallet_refusing ledger_second_fails
        [asset_X, asset_Y, asset_Z])
       = [ErrorCallback (Some '''') (Message ''Failed signing transactions!'')]"
proof -
  have wallet: "signAllTransactions wallet_refusing
                  = Some (\<lambda>txs. Inl (Failure ''User rejected the request''))"
    by (simp add: wallet_refusing_def)
  have called: "(Main, SignAllTransactionsCall [swap_tx_H0, swap_tx_H0])
     \<in> set (sweepTokens runtime_AQID [1, 0] wallet_refusing ledger_second_fails
              [asset_X, asset_Y, asset_Z])"
    by code_simp
  have failed: "(\<lambda>txs. Inl (Failure ''User rejected the request''))
                  [swap_tx_H0, swap_tx_H0] = Inl (Failure ''User rejected the request'')"
    by simp
  from sweepTokens_signing_failure[OF wallet called failed] called show ?thesis
    by blast
qed

text \<open>
  Claim C3. Take the transaction at position \<open>i\<close> of the signed batch, keyed by the
  token address \<open>k\<close> of its asset. The events of its own run are the state
  \<^verbatim>\<open>Scooping\<close>, the submission, and then one terminal report: \<^verbatim>\<open>Scooped\<close> when the
  submission is confirmed, or \<^verbatim>\<open>Error\<close> followed by one \<open>errorCallback\<close> with the
  failure. Nothing follows the terminal report, and this holds for every schedule and
  whatever happens to the other submissions. When no other submitted transaction has
  the key \<open>k\<close>, the states reported for \<open>k\<close> in the whole run are \<^verbatim>\<open>Scooping\<close> and
  then that one terminal state.
\<close>

theorem sweepTokens_submission_states:
  assumes fetch: "getLatestBlockhash connection = Inr blockHash"
      and built: "forEach_asset rt wallet blockHash assets \<lparr>transactions = [], dropped = []\<rparr>
                    = Inr st"
      and wallet: "signAllTransactions wallet = Some sign"
      and signed: "sign (map snd (transactions st)) = Inr signed"
      and i: "i < length signed" "i < length (transactions st)"
  shows
    "let k = fst (transactions st ! i);
         t = signed ! i;
         tr = sweepTokens rt sched wallet connection assets
     in by_actor (Branch i) tr =
          [TransactionStateCallback k ''Scooping'', SendAndConfirmCall t] @
          (case sendAndConfirmRawTransaction connection i t of
             Inr txid \<Rightarrow> [TransactionStateCallback k ''Scooped'']
           | Inl err \<Rightarrow> [TransactionStateCallback k ''Error'', ErrorCallback k (Caught err)])
      \<and> ((\<forall>j. j < length signed \<and> j < length (transactions st) \<and> j \<noteq> i \<longrightarrow>
               fst (transactions st ! j) \<noteq> k) \<longrightarrow>
          states_for k tr =
            [''Scooping'',
             case sendAndConfirmRawTransaction connection i t of
               Inr txid \<Rightarrow> ''Scooped'' | Inl err \<Rightarrow> ''Error''])"
proof -
  let ?k = "fst (transactions st ! i)"
  let ?tr = "sweepTokens rt sched wallet connection assets"
  let ?P = "Promise_all sched
              (map (\<lambda>(i, t). submit_body connection (transactions st) i t) (enumerate 0 signed))
              [Settled Resolves] signing_failed"
  have tr: "?tr = (Main, GetLatestBlockhashCall) #
                  (Main, SignAllTransactionsCall (map snd (transactions st))) # ?P"
    using fetch built wallet signed by (simp add: sweepTokens_def)
  have own: "by_actor (Branch i) ?tr =
          [TransactionStateCallback ?k ''Scooping'', SendAndConfirmCall (signed ! i)] @
          (case sendAndConfirmRawTransaction connection i (signed ! i) of
             Inr txid \<Rightarrow> [TransactionStateCallback ?k ''Scooped'']
           | Inl err \<Rightarrow> [TransactionStateCallback ?k ''Error'', ErrorCallback ?k (Caught err)])"
    using sweepTokens_branch[OF fetch built wallet signed i(1)] submit_body_events[OF i(2)]
    by simp
  have once: "states_for ?k ?tr =
            [''Scooping'',
             case sendAndConfirmRawTransaction connection i (signed ! i) of
               Inr txid \<Rightarrow> ''Scooped'' | Inl err \<Rightarrow> ''Error'']"
    if others: "\<forall>j. j < length signed \<and> j < length (transactions st) \<and> j \<noteq> i \<longrightarrow>
                  fst (transactions st ! j) \<noteq> ?k"
  proof -
    have owner: "fst x = Branch i" if x: "x \<in> set ?tr" "state_for ?k (snd x) \<noteq> None" for x
    proof -
      from x tr have "x \<in> set ?P" by auto
      from submit_origin[OF this] x(2)
      obtain j s where j: "j < length signed" "j < length (transactions st)" "fst x = Branch j"
        and s: "snd x = TransactionStateCallback (fst (transactions st ! j)) s"
        by auto
      from s x(2) have "fst (transactions st ! j) = ?k"
        by (simp split: if_splits)
      with others j have "j = i" by blast
      with j(3) show ?thesis by simp
    qed
    have "states_for ?k ?tr = List.map_filter (state_for ?k) (by_actor (Branch i) ?tr)"
      using owner by (rule states_for_by_owner)
    then show ?thesis
      unfolding own by (simp add: List.map_filter_def split: sum.splits)
  qed
  from own once show ?thesis
    unfolding Let_def by blast
qed

theorem sweepTokens_submission_states_witness:
  "getLatestBlockhash ledger_second_fails = Inr ''H1''
   \<and> forEach_asset runtime_AQID wallet_W ''H1'' [asset_X, asset_Z, asset_V]
        \<lparr>transactions = [], dropped = []\<rparr>
       = Inr \<lparr>transactions = [(Some ''X'', swap_tx_H0), (Some ''Z'', swap_tx_H0), (Some ''V'', swap_tx_H0)],
              dropped = [closeAccountTx ''W'' ''H1'', closeAccountTx ''W'' ''H1'',
                         closeAccountTx ''W'' ''H1'']\<rparr>
   \<and> sendAndConfirmRawTransaction ledger_second_fails 1 (signed_by ''W'' swap_tx_H0)
       = Inl (Failure ''Transaction was not confirmed'')
   \<and> by_actor (Branch 2)
        (sweepTokens runtime_AQID [2, 0, 1] wallet_W ledger_second_fails
           [asset_X, asset_Z, asset_V])
       = [TransactionStateCallback (Some ''V'') ''Scooping'',
          SendAndConfirmCall (signed_by ''W'' swap_tx_H0),
          TransactionStateCallback (Some ''V'') ''Scooped'']
   \<and> states_for (Some ''V'')
        (sweepTokens runtime_AQID [2, 0, 1] wallet_W ledger_second_fails
           [asset_X, asset_Z, asset_V])
       = [''Scooping'', ''Scooped'']"
proof -
  let ?st = "\<lparr>transactions = [(Some ''X'', swap_tx_H0), (Some ''Z'', swap_tx_H0), (Some ''V'', swap_tx_H0)],
              dropped = [closeAccountTx ''W'' ''H1'', closeAccountTx ''W'' ''H1'',
                         closeAccountTx ''W'' ''H1'']\<rparr>"
  let ?signed = "[signed_by ''W'' swap_tx_H0, signed_by ''W'' swap_tx_H0,
                  signed_by ''W'' swap_tx_H0]"
  have fetch: "getLatestBlockhash ledger_second_fails = Inr ''H1''"
    by (simp add: ledger_second_fails_def)
  have built: "forEach_asset runtime_AQID wallet_W ''H1'' [asset_X, asset_Z, asset_V]
        \<lparr>transactions = [], dropped = []\<rparr> = Inr ?st"
    by code_simp
  have wallet: "signAllTransactions wallet_W = Some (\<lambda>txs. Inr (map (signed_by ''W'') txs))"
    by (simp add: wallet_W_def)
  have signed: "(\<lambda>txs. Inr (map (signed_by ''W'') txs)) (map snd (transactions ?st))
                  = Inr ?signed"
    by simp
  have i: "2 < length ?signed" "2 < length (transactions ?st)"
    by simp_all
  have second: "sendAndConfirmRawTransaction ledger_second_fails 1 (signed_by ''W'' swap_tx_H0)
       = Inl (Failure ''Transaction was not confirmed'')"
    by (simp add: ledger_second_fails_def)
  have third: "sendAndConfirmRawTransaction ledger_second_fails 2 t = Inr ''signature''" for t
    by (simp add: ledger_second_fails_def)
  have others: "\<forall>j. j < length ?signed \<and> j < length (transactions ?st) \<and> j \<noteq> 2 \<longrightarrow>
                  fst (transactions ?st ! j) \<noteq> fst (transactions ?st ! 2)"
    by (auto simp: less_Suc_eq numeral_3_eq_3 numeral_2_eq_2)
  from sweepTokens_submission_states[OF fetch built wallet signed i,
      of "[2, 0, 1]"] others
  show ?thesis using fetch built second
    by (simp add: Let_def third)
qed

text \<open>
  Claim C6, as amended. When the block reference is fetched, the wallet has a public
  key and the swap payload of every approved asset that has one decodes, the loop runs
  to its end, and the transactions enqueued are, in order, the decoded payloads of
  exactly the approved assets that have a swap payload, each keyed by the token address
  of its asset; they are what the wallet is asked to sign, and only what the wallet
  returns is submitted. On an approved asset with a zero balance and no swap payload
  the loop constructs the closure transaction, drops it and enqueues nothing. Every
  callback of the run carries the key of an enqueued transaction, except the report of
  a failed signing, which carries the empty id.
\<close>

theorem sweepTokens_enqueues_swaps:
  assumes fetch: "getLatestBlockhash connection = Inr blockHash"
      and key: "publicKey wallet = Some pk"
      and decodes: "\<forall>a \<in> set assets. checked a = Some True \<longrightarrow>
                      (\<forall>sw. swap a = Some sw \<longrightarrow> (\<exists>t. decode_swap rt sw = Inr t))"
  shows
    "\<exists>st. forEach_asset rt wallet blockHash assets \<lparr>transactions = [], dropped = []\<rparr> = Inr st
     \<and> map (\<lambda>(k, t). (k, Inr t)) (transactions st) =
         map (\<lambda>a. (token_address (token (asset a)), decode_swap rt (the (swap a))))
           (filter (\<lambda>a. checked a = Some True \<and> swap a \<noteq> None) assets)
     \<and> dropped st =
         map (\<lambda>a. closeAccountTx pk blockHash)
           (filter (\<lambda>a. checked a = Some True
                        \<and> (swap a \<noteq> None \<or> balance_is_0n (balance (asset a)))) assets)
     \<and> (\<forall>a st0. checked a = Some True \<and> swap a = None \<and> balance_is_0n (balance (asset a)) \<longrightarrow>
           sweep_asset rt wallet blockHash st0 a
             = Inr (st0\<lparr>dropped := dropped st0 @ [closeAccountTx pk blockHash]\<rparr>))
     \<and> (\<forall>sign. signAllTransactions wallet = Some sign \<longrightarrow>
           (Main, SignAllTransactionsCall (map snd (transactions st)))
             \<in> set (sweepTokens rt sched wallet connection assets))
     \<and> (\<forall>txs. SignAllTransactionsCall txs
                  \<in> set (map snd (sweepTokens rt sched wallet connection assets)) \<longrightarrow>
           txs = map snd (transactions st))
     \<and> (\<forall>t. SendAndConfirmCall t
                  \<in> set (map snd (sweepTokens rt sched wallet connection assets)) \<longrightarrow>
           (\<exists>sign signed. signAllTransactions wallet = Some sign
              \<and> sign (map snd (transactions st)) = Inr signed \<and> t \<in> set signed))
     \<and> (\<forall>e \<in> set (callbacks (sweepTokens rt sched wallet connection assets)).
           (\<exists>k \<in> fst ` set (transactions st). callback_id e = Some k)
         \<or> e = ErrorCallback (Some '''') (Message ''Failed signing transactions!''))"
proof -
  let ?tr = "sweepTokens rt sched wallet connection assets"
  from decodes have "decode_failures rt assets = []"
    by (simp add: decode_failures_Nil)
  with forEach_asset_failure[OF key, where rt=rt and assets=assets and blockHash=blockHash
      and st="\<lparr>transactions = [], dropped = []\<rparr>"]
  obtain st where
    built: "forEach_asset rt wallet blockHash assets \<lparr>transactions = [], dropped = []\<rparr> = Inr st"
    by auto
  from forEach_asset_eq[OF key built]
  have txs: "transactions st =
           map (\<lambda>a. (token_address (token (asset a)), projr (decode_swap rt (the (swap a)))))
             (filter (\<lambda>a. checked a = Some True \<and> swap a \<noteq> None) assets)"
    and dr: "dropped st =
           map (\<lambda>a. closeAccountTx pk blockHash)
             (filter (\<lambda>a. checked a = Some True
                          \<and> (swap a \<noteq> None \<or> balance_is_0n (balance (asset a)))) assets)"
    and dec: "\<forall>a \<in> set assets. checked a = Some True \<and> swap a \<noteq> None \<longrightarrow>
             (\<exists>t. decode_swap rt (the (swap a)) = Inr t)"
    by simp_all
  have c1: "map (\<lambda>(k, t). (k, Inr t)) (transactions st) =
       map (\<lambda>a. (token_address (token (asset a)), decode_swap rt (the (swap a))))
         (filter (\<lambda>a. checked a = Some True \<and> swap a \<noteq> None) assets)"
    unfolding txs using dec by (auto simp: comp_def)
  have c3: "sweep_asset rt wallet blockHash st0 a
           = Inr (st0\<lparr>dropped := dropped st0 @ [closeAccountTx pk blockHash]\<rparr>)"
    if "checked a = Some True \<and> swap a = None \<and> balance_is_0n (balance (asset a))" for a st0
    using that key by (simp add: sweep_asset_def)
  have c4: "(Main, SignAllTransactionsCall (map snd (transactions st))) \<in> set ?tr"
    if "signAllTransactions wallet = Some sign" for sign
    using that fetch built by (simp add: sweepTokens_def)
  have rest: "(\<forall>txs. SignAllTransactionsCall txs \<in> set (map snd ?tr) \<longrightarrow>
                 txs = map snd (transactions st))
           \<and> (\<forall>t. SendAndConfirmCall t \<in> set (map snd ?tr) \<longrightarrow>
                 (\<exists>sign signed. signAllTransactions wallet = Some sign
                    \<and> sign (map snd (transactions st)) = Inr signed \<and> t \<in> set signed))
           \<and> (\<forall>e \<in> set (callbacks ?tr).
                 (\<exists>k \<in> fst ` set (transactions st). callback_id e = Some k)
               \<or> e = ErrorCallback (Some '''') (Message ''Failed signing transactions!''))"
  proof (cases rule: sweepTokens_cases[where rt=rt and sched=sched and wallet=wallet
          and connection=connection and assets=assets])
    case (fetch_failed e)
    with fetch show ?thesis by simp
  next
    case (decode_failed blockHash' e)
    with fetch built show ?thesis by simp
  next
    case (no_signAll blockHash' st')
    then show ?thesis by (simp add: callbacks_def)
  next
    case (signing_failed blockHash' st' sign error)
    with fetch built show ?thesis by (simp add: callbacks_def)
  next
    case (submitting blockHash' st' sign signed)
    with fetch built have st': "st' = st" by simp
    let ?P = "Promise_all sched
              (map (\<lambda>(i, t). submit_body connection (transactions st) i t) (enumerate 0 signed))
              [Settled Resolves] signing_failed"
    have tr: "?tr = (Main, GetLatestBlockhashCall) #
                    (Main, SignAllTransactionsCall (map snd (transactions st))) # ?P"
      using submitting(5) st' by simp
    have kinds: "(\<forall>txs. snd x \<noteq> SignAllTransactionsCall txs)
               \<and> (\<forall>t. snd x = SendAndConfirmCall t \<longrightarrow> t \<in> set signed)
               \<and> (callback_id (snd x) \<noteq> None \<longrightarrow>
                    (\<exists>k \<in> fst ` set (transactions st). callback_id (snd x) = Some k)
                  \<or> snd x = ErrorCallback (Some '''') (Message ''Failed signing transactions!''))"
      if "x \<in> set ?P" for x
      using submit_origin[OF that] by (auto simp: image_iff)
    have a: "\<forall>txs. SignAllTransactionsCall txs \<in> set (map snd ?tr) \<longrightarrow>
                 txs = map snd (transactions st)"
      unfolding tr using kinds by force
    have b: "\<forall>t. SendAndConfirmCall t \<in> set (map snd ?tr) \<longrightarrow>
                 (\<exists>sign signed. signAllTransactions wallet = Some sign
                    \<and> sign (map snd (transactions st)) = Inr signed \<and> t \<in> set signed)"
      unfolding tr using kinds submitting(3,4) st' by force
    have c: "\<forall>e \<in> set (callbacks ?tr).
                 (\<exists>k \<in> fst ` set (transactions st). callback_id e = Some k)
               \<or> e = ErrorCallback (Some '''') (Message ''Failed signing transactions!'')"
      unfolding tr callbacks_def using kinds by force
    from a b c show ?thesis by blast
  qed
  from built c1 dr c3 c4 rest show ?thesis by blast
qed

theorem sweepTokens_enqueues_swaps_witness:
  "getLatestBlockhash ledger_second_fails = Inr ''H1''
   \<and> publicKey wallet_W = Some ''W''
   \<and> decode_swap runtime_AQID swap_AQID = Inr swap_tx_H0
   \<and> forEach_asset runtime_AQID wallet_W ''H1'' [asset_X, asset_Y, asset_Z]
        \<lparr>transactions = [], dropped = []\<rparr>
       = Inr \<lparr>transactions = [(Some ''X'', swap_tx_H0), (Some ''Z'', swap_tx_H0)],
              dropped = [closeAccountTx ''W'' ''H1'', closeAccountTx ''W'' ''H1'',
                         closeAccountTx ''W'' ''H1'']\<rparr>
   \<and> sweep_asset runtime_AQID wallet_W ''H1''
        \<lparr>transactions = [(Some ''X'', swap_tx_H0)], dropped = [closeAccountTx ''W'' ''H1'']\<rparr>
        asset_Y
       = Inr \<lparr>transactions = [(Some ''X'', swap_tx_H0)],
              dropped = [closeAccountTx ''W'' ''H1'', closeAccountTx ''W'' ''H1'']\<rparr>
   \<and> (Main, SignAllTransactionsCall [swap_tx_H0, swap_tx_H0])
       \<in> set (sweepTokens runtime_AQID [1] wallet_W ledger_second_fails
                [asset_X, asset_Y, asset_Z])
   \<and> callbacks_for (Some ''Y'')
        (sweepTokens runtime_AQID [1] wallet_W ledger_second_fails [asset_X, asset_Y, asset_Z])
       = []"
proof -
  let ?st = "\<lparr>transactions = [(Some ''X'', swap_tx_H0), (Some ''Z'', swap_tx_H0)],
              dropped = [closeAccountTx ''W'' ''H1'', closeAccountTx ''W'' ''H1'',
                         closeAccountTx ''W'' ''H1'']\<rparr>"
  let ?tr = "sweepTokens runtime_AQID [1] wallet_W ledger_second_fails
               [asset_X, asset_Y, asset_Z]"
  have fetch: "getLatestBlockhash ledger_second_fails = Inr ''H1''"
    by (simp add: ledger_second_fails_def)
  have key: "publicKey wallet_W = Some ''W''"
    by (simp add: wallet_W_def)
  have payload: "decode_swap runtime_AQID swap_AQID = Inr swap_tx_H0"
    by code_simp
  have swaps: "swap asset_X = Some swap_AQID" "swap asset_Y = None" "swap asset_Z = Some swap_AQID"
    by (simp_all add: asset_X_def asset_Y_def asset_Z_def)
  have decodes: "\<forall>a \<in> set [asset_X, asset_Y, asset_Z]. checked a = Some True \<longrightarrow>
                   (\<forall>sw. swap a = Some sw \<longrightarrow> (\<exists>t. decode_swap runtime_AQID sw = Inr t))"
    by (simp add: swaps payload)
  have built: "forEach_asset runtime_AQID wallet_W ''H1'' [asset_X, asset_Y, asset_Z]
        \<lparr>transactions = [], dropped = []\<rparr> = Inr ?st"
    by code_simp
  have y: "checked asset_Y = Some True \<and> swap asset_Y = None
           \<and> balance_is_0n (balance (asset asset_Y))"
    by code_simp
  have signs: "signAllTransactions wallet_W = Some (\<lambda>txs. Inr (map (signed_by ''W'') txs))"
    by (simp add: wallet_W_def)
  from sweepTokens_enqueues_swaps[OF fetch key decodes, of "[1]"] built
  have inst:
    "(\<forall>a st0. checked a = Some True \<and> swap a = None \<and> balance_is_0n (balance (asset a)) \<longrightarrow>
           sweep_asset runtime_AQID wallet_W ''H1'' st0 a
             = Inr (st0\<lparr>dropped := dropped st0 @ [closeAccountTx ''W'' ''H1'']\<rparr>))
     \<and> (\<forall>sign. signAllTransactions wallet_W = Some sign \<longrightarrow>
           (Main, SignAllTransactionsCall (map snd (transactions ?st))) \<in> set ?tr)
     \<and> (\<forall>e \<in> set (callbacks ?tr).
           (\<exists>k \<in> fst ` set (transactions ?st). callback_id e = Some k)
         \<or> e = ErrorCallback (Some '''') (Message ''Failed signing transactions!''))"
    by auto
  from inst y have body: "sweep_asset runtime_AQID wallet_W ''H1'' st0 asset_Y
           = Inr (st0\<lparr>dropped := dropped st0 @ [closeAccountTx ''W'' ''H1'']\<rparr>)" for st0
    by blast
  from inst signs have asked: "(Main, SignAllTransactionsCall [swap_tx_H0, swap_tx_H0]) \<in> set ?tr"
    by simp
  from inst have ids: "\<forall>e \<in> set (callbacks ?tr).
         (\<exists>k \<in> fst ` set (transactions ?st). callback_id e = Some k)
       \<or> e = ErrorCallback (Some '''') (Message ''Failed signing transactions!'')"
    by blast
  have "callback_id e \<noteq> Some (Some ''Y'')" if "e \<in> set (callbacks ?tr)" for e
    using ids that by fastforce
  then have none: "callbacks_for (Some ''Y'') ?tr = []"
    by (auto simp: callbacks_for_def callbacks_def filter_empty_conv)
  from fetch key payload built asked none show ?thesis
    by (simp add: body)
qed

text \<open>
  Claim C6 as stated speaks of every approved asset. The loop also asks for the public
  key of the wallet: when the wallet has none, an approved asset whose swap payload
  decodes gets nothing enqueued, and the wallet is asked to sign the empty batch. And
  an approved asset whose swap payload does not decode ends the sweep before anything
  is signed.
\<close>

theorem sweepTokens_disconnected_counterexample:
  "checked asset_X = Some True
   \<and> swap asset_X = Some swap_AQID
   \<and> decode_swap runtime_AQID swap_AQID = Inr swap_tx_H0
   \<and> publicKey wallet_disconnected = None
   \<and> sweepTokens runtime_AQID [] wallet_disconnected ledger_second_fails [asset_X]
       = [(Main, GetLatestBlockhashCall),
          (Main, SignAllTransactionsCall []),
          (Main, Settled Resolves)]
   \<and> checked asset_bad = Some True
   \<and> swap asset_bad = Some \<lparr>swapTransaction = ''%%%'', lastValidBlockHeight = 1\<rparr>
   \<and> publicKey wallet_W = Some ''W''
   \<and> sweepTokens runtime_AQID [] wallet_W ledger_second_fails [asset_bad]
       = [(Main, GetLatestBlockhashCall),
          (Main, Settled (Rejects (Failure ''InvalidCharacterError'')))]"
  by code_simp




text \<open>
  Claim C9. No run of \<open>sweepTokens\<close> calls \<open>transactionIdCallback\<close>, whatever the
  inputs, the schedule and the outcome of the submissions.
\<close>

theorem sweepTokens_never_reports_id:
  "filter is_transaction_id (map snd (sweepTokens rt sched wallet connection assets)) = []"
proof (cases rule: sweepTokens_cases[where rt=rt and sched=sched and wallet=wallet
          and connection=connection and assets=assets])
  case (submitting blockHash st sign signed)
  have "\<not> is_transaction_id (snd x)"
    if "x \<in> set (Promise_all sched
              (map (\<lambda>(i, t). submit_body connection (transactions st) i t) (enumerate 0 signed))
              [Settled Resolves] signing_failed)" for x
    using submit_origin[OF that] by auto
  with submitting(5) show ?thesis
    by (simp add: filter_empty_conv)
qed simp_all

theorem sweepTokens_never_reports_id_witness:
  "sendAndConfirmRawTransaction ledger_second_fails 0 (signed_by ''W'' swap_tx_H0)
     = Inr ''signature''
   \<and> by_actor (Branch 0)
        (sweepTokens runtime_AQID [] wallet_W ledger_second_fails [asset_X, asset_Z])
       = [TransactionStateCallback (Some ''X'') ''Scooping'',
          SendAndConfirmCall (signed_by ''W'' swap_tx_H0),
          TransactionStateCallback (Some ''X'') ''Scooped'']
   \<and> filter is_transaction_id
        (map snd (sweepTokens runtime_AQID [] wallet_W ledger_second_fails [asset_X, asset_Z]))
       = []"
proof -
  have "sendAndConfirmRawTransaction ledger_second_fails 0 (signed_by ''W'' swap_tx_H0)
          = Inr ''signature''"
    by (simp add: ledger_second_fails_def)
  moreover have "by_actor (Branch 0)
        (sweepTokens runtime_AQID [] wallet_W ledger_second_fails [asset_X, asset_Z])
       = [TransactionStateCallback (Some ''X'') ''Scooping'',
          SendAndConfirmCall (signed_by ''W'' swap_tx_H0),
          TransactionStateCallback (Some ''X'') ''Scooped'']"
    by code_simp
  ultimately show ?thesis
    using sweepTokens_never_reports_id[of runtime_AQID "[]" wallet_W ledger_second_fails
        "[asset_X, asset_Z]"]
    by simp
qed

text \<open>
  Claim C10, as amended. When the wallet has no \<^verbatim>\<open>signAllTransactions\<close>, the run
  consists of the fetch of the block reference and the settling of the promise: nothing
  is signed, nothing is submitted and no callback is made. The promise rejects with the
  failure of the fetch when the fetch fails. Otherwise, when the wallet has a public key
  and the swap payload of some approved asset does not decode, it rejects with the
  failure of the first such payload. Otherwise it resolves.
\<close>

theorem sweepTokens_without_signAll:
  assumes "signAllTransactions wallet = None"
  shows "sweepTokens rt sched wallet connection assets =
           [(Main, GetLatestBlockhashCall),
            (Main, Settled
               (case getLatestBlockhash connection of
                  Inl e \<Rightarrow> Rejects e
                | Inr blockHash \<Rightarrow>
                    (if publicKey wallet = None then Resolves
                     else (case decode_failures rt assets of
                             [] \<Rightarrow> Resolves
                           | e # es \<Rightarrow> Rejects e))))]
       \<and> callbacks (sweepTokens rt sched wallet connection assets) = []"
proof -
  let ?st0 = "\<lparr>transactions = [], dropped = []\<rparr>"
  have run: "sweepTokens rt sched wallet connection assets =
           [(Main, GetLatestBlockhashCall),
            (Main, Settled
               (case getLatestBlockhash connection of
                  Inl e \<Rightarrow> Rejects e
                | Inr blockHash \<Rightarrow>
                    (if publicKey wallet = None then Resolves
                     else (case decode_failures rt assets of
                             [] \<Rightarrow> Resolves
                           | e # es \<Rightarrow> Rejects e))))]"
  proof (cases "getLatestBlockhash connection")
    case (Inl e)
    then show ?thesis by (simp add: sweepTokens_def)
  next
    case fetch: (Inr blockHash)
    show ?thesis
    proof (cases "publicKey wallet")
      case None
      with fetch assms forEach_asset_no_key[OF None, where rt=rt and blockHash=blockHash and assets=assets
        and st="?st0"]
      show ?thesis by (simp add: sweepTokens_def)
    next
      case (Some pk)
      note loop = forEach_asset_failure[OF Some, where rt=rt and assets=assets and blockHash=blockHash
        and st="?st0"]
      show ?thesis
      proof (cases "decode_failures rt assets")
        case Nil
        with loop obtain st where "forEach_asset rt wallet blockHash assets ?st0 = Inr st"
          by auto
        with fetch assms Some Nil show ?thesis by (simp add: sweepTokens_def)
      next
        case (Cons e es)
        with loop have "forEach_asset rt wallet blockHash assets ?st0 = Inl e"
          by simp
        with fetch Some Cons show ?thesis by (simp add: sweepTokens_def)
      qed
    qed
  qed
  have "callbacks (sweepTokens rt sched wallet connection assets) = []"
    unfolding run by (simp add: callbacks_def)
  with run show ?thesis by simp
qed

theorem sweepTokens_without_signAll_witness:
  "signAllTransactions wallet_without_signAll = None
   \<and> sweepTokens runtime_AQID [0] wallet_without_signAll ledger_second_fails [asset_X, asset_Y]
       = [(Main, GetLatestBlockhashCall), (Main, Settled Resolves)]
   \<and> signAllTransactions wallet_bare = None
   \<and> publicKey wallet_bare = None
   \<and> sweepTokens runtime_AQID [0] wallet_bare ledger_second_fails [asset_bad]
       = [(Main, GetLatestBlockhashCall), (Main, Settled Resolves)]"
proof -
  have none: "signAllTransactions wallet_without_signAll = None"
    by (simp add: wallet_without_signAll_def)
  have key: "publicKey wallet_without_signAll = Some ''W''"
    by (simp add: wallet_without_signAll_def)
  have fetch: "getLatestBlockhash ledger_second_fails = Inr ''H1''"
    by (simp add: ledger_second_fails_def)
  have decodes: "decode_failures runtime_AQID [asset_X, asset_Y] = []"
    by code_simp
  have bare: "signAllTransactions wallet_bare = None" "publicKey wallet_bare = None"
    by (simp_all add: wallet_bare_def)
  from sweepTokens_without_signAll[OF none, of runtime_AQID "[0]" ledger_second_fails
      "[asset_X, asset_Y]"]
  have first: "sweepTokens runtime_AQID [0] wallet_without_signAll ledger_second_fails
                 [asset_X, asset_Y] = [(Main, GetLatestBlockhashCall), (Main, Settled Resolves)]"
    by (simp add: fetch key decodes)
  from sweepTokens_without_signAll[OF bare(1), of runtime_AQID "[0]" ledger_second_fails
      "[asset_bad]"]
  have second: "sweepTokens runtime_AQID [0] wallet_bare ledger_second_fails [asset_bad]
                  = [(Main, GetLatestBlockhashCall), (Main, Settled Resolves)]"
    by (simp add: fetch bare)
  from none first bare second show ?thesis by simp
qed

text \<open>
  Claim C10 as stated has the promise resolve. With a ledger that cannot be reached
  the fetch of the block reference fails before the wallet is looked at, and the
  promise rejects; so it does when an approved swap payload does not decode.
\<close>

theorem sweepTokens_without_signAll_counterexample:
  "signAllTransactions wallet_without_signAll = None
   \<and> getLatestBlockhash ledger_down = Inl (Failure ''ECONNREFUSED'')
   \<and> sweepTokens runtime_AQID [] wallet_without_signAll ledger_down [asset_X]
       = [(Main, GetLatestBlockhashCall), (Main, Settled (Rejects (Failure ''ECONNREFUSED'')))]
   \<and> sweepTokens runtime_AQID [] wallet_without_signAll ledger_second_fails [asset_bad]
       = [(Main, GetLatestBlockhashCall),
          (Main, Settled (Rejects (Failure ''InvalidCharacterError'')))]"
proof -
  have "signAllTransactions wallet_without_signAll = None"
    by (simp add: wallet_without_signAll_def)
  moreover have "getLatestBlockhash ledger_down = Inl (Failure ''ECONNREFUSED'')"
    by (simp add: ledger_down_def)
  moreover have "sweepTokens runtime_AQID [] wallet_without_signAll ledger_down [asset_X]
       = [(Main, GetLatestBlockhashCall), (Main, Settled (Rejects (Failure ''ECONNREFUSED'')))]"
    by code_simp
  moreover have
    "sweepTokens runtime_AQID [] wallet_without_signAll ledger_second_fails [asset_bad]
       = [(Main, GetLatestBlockhashCall),
          (Main, Settled (Rejects (Failure ''InvalidCharacterError'')))]"
    by code_simp
  ultimately show ?thesis by simp
qed

end
